theory Spec2Isabelle
  imports Complex_Main
begin

section \<open>The playback and telemetry engine of the video player\<close>

text \<open>
  The definitions below embed the player component (\<^verbatim>\<open>VideoPlayer\<close>, the version with
  playback telemetry) function by function. A JavaScript \<^verbatim>\<open>number\<close> that holds a time
  or a rate is a rational (finite doubles, arithmetic taken exact); a byte count of the
  Resource Timing interface (\<^verbatim>\<open>unsigned long long\<close>) and a counter are naturals; an
  optional field (\<^verbatim>\<open>undefined\<close> when absent) is an \<open>option\<close>. Strings are
  \<open>char list\<close>s.
\<close>

type_synonym number = rat

subsection \<open>Resource-timing classifier\<close>

text \<open>The fields of a \<^verbatim>\<open>PerformanceResourceTiming\<close> entry that the player reads.\<close>

record entry =
  name :: string
  responseEnd :: number
  transferSize :: nat
  encodedBodySize :: nat
  decodedBodySize :: nat
  nextHopProtocol :: string

text \<open>
  \<^verbatim>\<open>classifyDeliverySource(entry?)\<close>: the size heuristic. Every path of the source ends
  in a \<^verbatim>\<open>return\<close>; there is no \<^verbatim>\<open>throw\<close> and no property read on an absent entry, so
  the result type has no error branch. The ratio is the exact quotient.
\<close>

definition classifyDeliverySource :: "entry option \<Rightarrow> string option" where
  "classifyDeliverySource e =
     (case e of
        None \<Rightarrow> None
      | Some x \<Rightarrow>
          if transferSize x = 0 \<and> decodedBodySize x > 0 then Some ''disk_cache''
          else if transferSize x > 0 \<and> encodedBodySize x > 0 then
            (let ratio = (of_nat (transferSize x) :: number) / of_nat (encodedBodySize x)
             in if ratio < 1.05 then Some ''edge_cache'' else Some ''origin'')
          else None)"

text \<open>
  The specification's wording of the middle case, "nonzero transfer size close to the
  encoded body size (within 5%)", read as a two-sided bound on the distance between the
  two sizes. Used only to state what the specification promises.
\<close>

definition spec_within_5_percent :: "nat \<Rightarrow> nat \<Rightarrow> bool" where
  "spec_within_5_percent ts ebs \<longleftrightarrow>
     100 * \<bar>int ts - int ebs\<bar> \<le> 5 * int ebs"

subsection \<open>JavaScript helpers\<close>

text \<open>
  \<^verbatim>\<open>s.includes(t)\<close>, \<^verbatim>\<open>s.startsWith(t)\<close> and \<^verbatim>\<open>s.toLowerCase()\<close>
  (on the ASCII letters; the keywords searched for are ASCII), \<^verbatim>\<open>Math.round\<close>
  (half rounds up) and the truthiness of an optional number and of an optional string.
\<close>

definition startsWith :: "string \<Rightarrow> string \<Rightarrow> bool" where
  "startsWith s t \<longleftrightarrow> take (length t) s = t"

fun includes_str :: "string \<Rightarrow> string \<Rightarrow> bool" where
  "includes_str [] t = (t = [])"
| "includes_str (c # cs) t = (startsWith (c # cs) t \<or> includes_str cs t)"

definition lowerChar :: "char \<Rightarrow> char" where
  "lowerChar c =
     (let n = (of_char c :: nat)
      in if 65 \<le> n \<and> n \<le> 90 then char_of (n + 32) else c)"

definition toLowerCase :: "string \<Rightarrow> string" where
  "toLowerCase s = map lowerChar s"

definition mathRound :: "number \<Rightarrow> int" where
  "mathRound x = \<lfloor>x + 1 / 2\<rfloor>"

definition truthyNum :: "number option \<Rightarrow> bool" where
  "truthyNum x = (case x of None \<Rightarrow> False | Some v \<Rightarrow> v \<noteq> 0)"

definition truthyStr :: "string option \<Rightarrow> bool" where
  "truthyStr x = (case x of None \<Rightarrow> False | Some v \<Rightarrow> v \<noteq> [])"

text \<open>\<^verbatim>\<open>a ?? b\<close>: the left operand unless it is absent.\<close>

definition nullish :: "'a option \<Rightarrow> 'a option \<Rightarrow> 'a option" where
  "nullish a b = (case a of None \<Rightarrow> b | Some v \<Rightarrow> Some v)"

text \<open>\<^verbatim>\<open>getDeviceType(userAgent)\<close>.\<close>

definition getDeviceType :: "string option \<Rightarrow> string option" where
  "getDeviceType userAgent =
     (if \<not> truthyStr userAgent then None
      else
        (let ua = toLowerCase (case userAgent of Some u \<Rightarrow> u | None \<Rightarrow> [])
         in if includes_str ua ''mobile'' \<or> includes_str ua ''android'' \<or> includes_str ua ''iphone''
                \<or> includes_str ua ''ipad''
            then Some ''mobile''
            else if includes_str ua ''smart-tv'' \<or> includes_str ua ''appletv'' \<or> includes_str ua ''hbbtv''
            then Some ''tv''
            else Some ''desktop''))"

subsection \<open>The telemetry session\<close>

text \<open>
  \<^verbatim>\<open>PlaybackMetricState\<close>. The three network fields carry the suffix \<open>_m\<close>, since the
  resource-timing entry has fields of the same names.
\<close>

record session =
  sessionId :: string
  mountTime :: "number option"
  manifestRequestedAt :: "number option"
  manifestLoadedAt :: "number option"
  playbackRequestedAt :: "number option"
  firstFrameAt :: "number option"
  bufferingEvents :: nat
  deliverySource :: "string option"
  bandwidthEstimateMbps :: "number option"
  transferSize_m :: "nat option"
  encodedBodySize_m :: "nat option"
  nextHopProtocol_m :: "string option"
  metricsSent :: bool

text \<open>The object literal that creates a session (on mount and on every source change).\<close>

definition freshSession :: "string \<Rightarrow> number \<Rightarrow> session" where
  "freshSession sid t =
     \<lparr>sessionId = sid, mountTime = Some t, manifestRequestedAt = None,
      manifestLoadedAt = None, playbackRequestedAt = None, firstFrameAt = None,
      bufferingEvents = 0, deliverySource = None, bandwidthEstimateMbps = None,
      transferSize_m = None, encodedBodySize_m = None, nextHopProtocol_m = None,
      metricsSent = False\<rparr>"

text \<open>
  What the handlers read from outside the component: \<^verbatim>\<open>navigator\<close> (absent on a
  server), its optional \<^verbatim>\<open>connection\<close>, the resource-timing entries of
  \<^verbatim>\<open>performance.getEntriesByType("resource")\<close> (absent when \<^verbatim>\<open>performance\<close> or
  the method is), and the props \<^verbatim>\<open>videoId\<close> and \<^verbatim>\<open>src\<close>.
\<close>

record connection =
  effectiveType :: "string option"
  downlink :: "number option"
  rtt :: "number option"

record nav =
  userAgent :: string
  language :: string
  connection :: "connection option"
  hasSendBeacon :: bool

record env =
  navigator :: "nav option"
  resources :: "entry list option"
  videoId :: "string option"
  src :: string

text \<open>
  \<^verbatim>\<open>captureResourceTiming(url, state)\<close>. The entries whose name and the url without
  its query string are prefixes of one another, most recent \<^verbatim>\<open>responseEnd\<close> first
  (the sort is stable), the first of them taken.
\<close>

definition captureResourceTiming :: "env \<Rightarrow> string \<Rightarrow> session \<Rightarrow> session" where
  "captureResourceTiming e url state =
     (case resources e of
        None \<Rightarrow> state
      | Some entries \<Rightarrow>
          if url = [] then state
          else
            (let normalized = takeWhile (\<lambda>c. c \<noteq> CHR ''?'') url;
                 matching = filter (\<lambda>x. startsWith (name x) normalized
                                         \<or> startsWith normalized (name x)) entries
             in case sort_key (\<lambda>x. - responseEnd x) matching of
                  [] \<Rightarrow> state
                | match # _ \<Rightarrow>
                    state\<lparr>transferSize_m := Some (transferSize match),
                          encodedBodySize_m := Some (encodedBodySize match),
                          nextHopProtocol_m := Some (nextHopProtocol match),
                          deliverySource :=
                            nullish (deliverySource state) (classifyDeliverySource (Some match))\<rparr>))"

text \<open>\<^verbatim>\<open>PlaybackMetricPayload\<close>, the nested metadata object flattened.\<close>

record payload =
  benchmark_run_source :: string
  session_id :: string
  reason :: string
  manifest_latency_ms :: "int option"
  transfer_size_bytes :: "nat option"
  encoded_body_size_bytes :: "nat option"
  next_hop_protocol :: "string option"
  connection_type :: "string option"
  delivery_source :: "string option"
  user_agent :: string
  language_p :: string
  downlink_p :: "number option"
  rtt_p :: "number option"
  video_id :: "string option"
  device_type :: "string option"
  bandwidth_mbps :: "number option"
  first_frame_ms :: "int option"
  total_startup_ms :: "int option"
  buffering_events :: nat

text \<open>
  \<^verbatim>\<open>constructPayload(reason)\<close>: nothing when \<^verbatim>\<open>firstFrameAt\<close> is falsy (absent or
  zero), and nothing without a \<^verbatim>\<open>navigator\<close>.
\<close>

definition constructPayload :: "env \<Rightarrow> session \<Rightarrow> string \<Rightarrow> payload option" where
  "constructPayload e state rsn =
     (case firstFrameAt state of
        None \<Rightarrow> None
      | Some ff \<Rightarrow>
          if ff = 0 then None
          else
            (let firstFrameMs =
                   (case mountTime state of
                      Some mt \<Rightarrow> Some (mathRound (ff - mt)) | None \<Rightarrow> None);
                 startupMs =
                   (case playbackRequestedAt state of
                      Some pr \<Rightarrow> Some (mathRound (ff - pr)) | None \<Rightarrow> firstFrameMs)
             in case navigator e of
                  None \<Rightarrow> None
                | Some n \<Rightarrow>
                    Some \<lparr>benchmark_run_source = ''playback_client'',
                          session_id = sessionId state,
                          reason = rsn,
                          manifest_latency_ms =
                            (case (manifestLoadedAt state, manifestRequestedAt state) of
                               (Some l, Some r) \<Rightarrow> Some (mathRound (l - r))
                             | _ \<Rightarrow> None),
                          transfer_size_bytes = transferSize_m state,
                          encoded_body_size_bytes = encodedBodySize_m state,
                          next_hop_protocol = nextHopProtocol_m state,
                          connection_type = Option.bind (connection n) effectiveType,
                          delivery_source = deliverySource state,
                          user_agent = userAgent n,
                          language_p = language n,
                          downlink_p = Option.bind (connection n) downlink,
                          rtt_p = Option.bind (connection n) rtt,
                          video_id = videoId e,
                          device_type = getDeviceType (Some (userAgent n)),
                          bandwidth_mbps =
                            nullish (bandwidthEstimateMbps state)
                              (Option.bind (connection n) downlink),
                          first_frame_ms = firstFrameMs,
                          total_startup_ms = startupMs,
                          buffering_events = bufferingEvents state\<rparr>))"

subsection \<open>The adaptive-streaming runtime and the media element\<close>

text \<open>
  The runtime (hls.js) is a library outside the repository. The model keeps what the
  component reads from and writes to it: the level inventory, the three level
  properties as plain fields (a read returns what was last written; \<open>-1\<close> is the
  runtime's "automatic"), and the one-shot listeners the component registers for the
  buffer-appended signal. Such a listener closes over the playback time and the
  playing state captured when it was registered.
\<close>

record level =
  height :: int

record restore =
  currentPlaybackTime :: number
  resumePlayback :: bool

record hls =
  levels :: "level list"
  currentLevel :: int
  nextLevel :: int
  loadLevel :: int
  bufferAppended :: "restore list"

text \<open>
  The media element, as far as the handlers read and write it. \<open>playCalls\<close> counts the
  calls of \<^verbatim>\<open>video.play()\<close> the component has made.
\<close>

record video =
  paused :: bool
  readyState :: nat
  currentTime :: number
  currentSrc :: string
  playCalls :: nat

subsection \<open>The component state\<close>

text \<open>
  The session ref, the runtime ref, the React state that the handlers below write
  (playing, loading, buffering, error, quality selection), and the metric payloads
  handed to a delivery mechanism so far, oldest first. The remaining React state
  (time, duration, buffered fraction, volume, fullscreen, controls) is not read by any
  handler modelled here and is left out, with the writes to it.
\<close>

datatype dispatch = Beacon payload | ApiCall payload

record player =
  metrics :: session
  isPlaying :: bool
  isLoading :: bool
  isBuffering :: bool
  error :: string
  quality :: string
  autoQualityLabel :: "string option"
  hlsRef :: "hls option"
  dispatched :: "dispatch list"

text \<open>
  \<^verbatim>\<open>sendPlaybackMetrics(reason, preferBeacon)\<close>. The function is \<^verbatim>\<open>async\<close> but
  awaits nothing, so its body runs to the end within the call.
\<close>

definition sendPlaybackMetrics :: "env \<Rightarrow> string \<Rightarrow> bool \<Rightarrow> player \<Rightarrow> player" where
  "sendPlaybackMetrics e rsn preferBeacon p =
     (let state = metrics p
      in if metricsSent state then p
         else
           (case constructPayload e state rsn of
              None \<Rightarrow> p
            | Some pl \<Rightarrow>
                (let p' = p\<lparr>metrics := state\<lparr>metricsSent := True\<rparr>\<rparr>
                 in if preferBeacon
                       \<and> (case navigator e of None \<Rightarrow> False | Some n \<Rightarrow> hasSendBeacon n)
                    then p'\<lparr>dispatched := dispatched p' @ [Beacon pl]\<rparr>
                    else p'\<lparr>dispatched := dispatched p' @ [ApiCall pl]\<rparr>)))"

text \<open>
  The effect on \<^verbatim>\<open>[sendPlaybackMetrics, src, videoId]\<close>: flush the old session if it
  is eligible, then replace it. \<open>sid\<close> and \<open>t\<close> are what \<^verbatim>\<open>createSessionId()\<close> and
  \<^verbatim>\<open>now()\<close> return.
\<close>

definition sourceChangeEffect :: "env \<Rightarrow> string \<Rightarrow> number \<Rightarrow> player \<Rightarrow> player" where
  "sourceChangeEffect e sid t p =
     (let p1 = (if truthyNum (firstFrameAt (metrics p)) \<and> \<not> metricsSent (metrics p)
                then sendPlaybackMetrics e ''source_change'' False p else p)
      in p1\<lparr>metrics := freshSession sid t\<rparr>)"

definition handleBeforeUnload :: "env \<Rightarrow> player \<Rightarrow> player" where
  "handleBeforeUnload e p =
     (if metricsSent (metrics p) then p
      else if \<not> truthyNum (firstFrameAt (metrics p)) then p
      else sendPlaybackMetrics e ''beforeunload'' True p)"

text \<open>The cleanup of the effect on \<^verbatim>\<open>[sendPlaybackMetrics]\<close>.\<close>

definition unmountCleanup :: "env \<Rightarrow> player \<Rightarrow> player" where
  "unmountCleanup e p =
     (if \<not> metricsSent (metrics p) \<and> truthyNum (firstFrameAt (metrics p))
      then sendPlaybackMetrics e ''unmount'' True p else p)"

subsection \<open>Media-element event handlers\<close>

text \<open>Where a handler calls \<^verbatim>\<open>now()\<close>, the value returned is the argument \<open>t\<close>.\<close>

definition handleLoadedMetadata :: "env \<Rightarrow> number \<Rightarrow> video \<Rightarrow> player \<Rightarrow> player" where
  "handleLoadedMetadata e t v p =
     (let p1 = p\<lparr>isLoading := False\<rparr>;
          s1 = (metrics p1)\<lparr>manifestLoadedAt := nullish (manifestLoadedAt (metrics p1)) (Some t)\<rparr>
      in p1\<lparr>metrics := captureResourceTiming e (currentSrc v) s1\<rparr>)"

definition handlePlay :: "number \<Rightarrow> player \<Rightarrow> player" where
  "handlePlay t p =
     (let p1 = p\<lparr>isPlaying := True, isBuffering := False\<rparr>
      in p1\<lparr>metrics := (metrics p1)\<lparr>playbackRequestedAt :=
                nullish (playbackRequestedAt (metrics p1)) (Some t)\<rparr>\<rparr>)"

definition handlePause :: "player \<Rightarrow> player" where
  "handlePause p = p\<lparr>isPlaying := False\<rparr>"

definition handleWaiting :: "video \<Rightarrow> player \<Rightarrow> player" where
  "handleWaiting v p =
     (if \<not> paused v \<and> readyState v < 3
      then (let p1 = p\<lparr>isBuffering := True\<rparr>
            in p1\<lparr>metrics := (metrics p1)\<lparr>bufferingEvents := bufferingEvents (metrics p1) + 1\<rparr>\<rparr>)
      else p)"

definition handleStalled :: "video \<Rightarrow> player \<Rightarrow> player" where
  "handleStalled v p =
     (if \<not> paused v
      then (let p1 = p\<lparr>isBuffering := True\<rparr>
            in p1\<lparr>metrics := (metrics p1)\<lparr>bufferingEvents := bufferingEvents (metrics p1) + 1\<rparr>\<rparr>)
      else p)"

definition handlePlaying :: "number \<Rightarrow> player \<Rightarrow> player" where
  "handlePlaying t p =
     (let p1 = p\<lparr>isBuffering := False\<rparr>
      in p1\<lparr>metrics := (metrics p1)\<lparr>firstFrameAt :=
                nullish (firstFrameAt (metrics p1)) (Some t)\<rparr>\<rparr>)"

definition handleCanPlay :: "env \<Rightarrow> video \<Rightarrow> player \<Rightarrow> player" where
  "handleCanPlay e v p =
     (let p1 = p\<lparr>isBuffering := False\<rparr>
      in p1\<lparr>metrics := captureResourceTiming e (currentSrc v) (metrics p1)\<rparr>)"

definition handleEnded :: "env \<Rightarrow> player \<Rightarrow> player" where
  "handleEnded e p = sendPlaybackMetrics e ''ended'' False (p\<lparr>isPlaying := False\<rparr>)"

definition handleError :: "env \<Rightarrow> player \<Rightarrow> player" where
  "handleError e p = sendPlaybackMetrics e ''error'' False (p\<lparr>error := ''Playback error''\<rparr>)"

definition handleLoadStart :: "number \<Rightarrow> player \<Rightarrow> player" where
  "handleLoadStart t p =
     p\<lparr>metrics := (metrics p)\<lparr>manifestRequestedAt :=
          nullish (manifestRequestedAt (metrics p)) (Some t)\<rparr>\<rparr>"

subsection \<open>Runtime event handlers\<close>

text \<open>
  The listeners for \<^verbatim>\<open>MANIFEST_LOADING\<close>, \<^verbatim>\<open>MANIFEST_LOADED\<close> and
  \<^verbatim>\<open>FRAG_LOADED\<close>. \<open>delivery\<close> is what \<^verbatim>\<open>extractDeliverySource\<close> makes of the
  event's network details (the response headers), \<open>bwEstimate\<close> the bandwidth
  estimate of the event's statistics; \<^verbatim>\<open>toFixed(2)\<close> rounds to hundredths, half up.
\<close>

definition onManifestLoading :: "number \<Rightarrow> player \<Rightarrow> player" where
  "onManifestLoading t p = p\<lparr>metrics := (metrics p)\<lparr>manifestRequestedAt := Some t\<rparr>\<rparr>"

definition onManifestLoaded :: "env \<Rightarrow> number \<Rightarrow> string option \<Rightarrow> player \<Rightarrow> player" where
  "onManifestLoaded e t delivery p =
     (let s1 = (metrics p)\<lparr>manifestLoadedAt := Some t\<rparr>;
          s2 = (if truthyStr delivery then s1\<lparr>deliverySource := delivery\<rparr> else s1)
      in p\<lparr>metrics := captureResourceTiming e (src e) s2\<rparr>)"

definition toFixed2 :: "number \<Rightarrow> number" where
  "toFixed2 x = of_int \<lfloor>x * 100 + 1 / 2\<rfloor> / 100"

definition onFragLoaded :: "number option \<Rightarrow> string option \<Rightarrow> player \<Rightarrow> player" where
  "onFragLoaded bwEstimate delivery p =
     (let s0 = metrics p;
          s1 = (case bwEstimate of
                  Some bw \<Rightarrow>
                    if bw \<noteq> 0 \<and> bw > 0
                    then s0\<lparr>bandwidthEstimateMbps := Some (toFixed2 (bw / 1000000))\<rparr>
                    else s0
                | None \<Rightarrow> s0);
          s2 = (if \<not> truthyStr (deliverySource s1)
                then (if truthyStr delivery then s1\<lparr>deliverySource := delivery\<rparr> else s1)
                else s1)
      in p\<lparr>metrics := s2\<rparr>)"

subsection \<open>Quality selection\<close>

text \<open>
  \<^verbatim>\<open>parseInt(s)\<close> without a radix: leading white space is skipped, a sign is read, a
  \<^verbatim>\<open>0x\<close> prefix selects base 16, and the longest prefix of digits is the value;
  \<open>None\<close> stands for \<^verbatim>\<open>NaN\<close>. \<^verbatim>\<open>s.replace("p", "")\<close> removes the first
  \<^verbatim>\<open>p\<close>.
\<close>

definition isWhiteSpace :: "char \<Rightarrow> bool" where
  "isWhiteSpace c \<longleftrightarrow> (of_char c :: nat) \<in> {9, 10, 11, 12, 13, 32}"

definition digitVal :: "char \<Rightarrow> nat option" where
  "digitVal c =
     (let n = (of_char c :: nat)
      in if 48 \<le> n \<and> n \<le> 57 then Some (n - 48)
         else if 97 \<le> n \<and> n \<le> 122 then Some (n - 87)
         else if 65 \<le> n \<and> n \<le> 90 then Some (n - 55)
         else None)"

definition isDigitOf :: "nat \<Rightarrow> char \<Rightarrow> bool" where
  "isDigitOf radix c = (case digitVal c of None \<Rightarrow> False | Some d \<Rightarrow> d < radix)"

definition digitsValue :: "nat \<Rightarrow> string \<Rightarrow> int" where
  "digitsValue radix ds =
     foldl (\<lambda>acc c. acc * int radix + int (case digitVal c of None \<Rightarrow> 0 | Some d \<Rightarrow> d)) 0 ds"

definition parseInt :: "string \<Rightarrow> int option" where
  "parseInt s =
     (let s1 = dropWhile isWhiteSpace s;
          sign = (case s1 of c # _ \<Rightarrow> if c = CHR ''-'' then - 1 else (1::int) | [] \<Rightarrow> 1);
          s2 = (case s1 of c # r \<Rightarrow> if c = CHR ''-'' \<or> c = CHR ''+'' then r else s1 | [] \<Rightarrow> s1);
          hex = (startsWith s2 ''0x'' \<or> startsWith s2 ''0X'');
          radix = (if hex then 16 else 10);
          s3 = (if hex then drop 2 s2 else s2);
          ds = takeWhile (isDigitOf radix) s3
      in if ds = [] then None else Some (sign * digitsValue radix ds))"

text \<open>\<^verbatim>\<open>xs.findIndex(P)\<close>: the first index whose element satisfies \<open>P\<close>, or \<open>-1\<close>.\<close>

fun findIndex :: "('a \<Rightarrow> bool) \<Rightarrow> 'a list \<Rightarrow> int" where
  "findIndex P [] = - 1"
| "findIndex P (x # xs) =
     (if P x then 0 else (let i = findIndex P xs in if i = - 1 then - 1 else i + 1))"

text \<open>
  The index and the height the component takes for the current selection:
  \<^verbatim>\<open>currentManualIndex\<close> and \<^verbatim>\<open>currentHeight\<close> (zero when the index is \<open>-1\<close> or
  outside the inventory).
\<close>

definition currentManualIndex :: "hls \<Rightarrow> int" where
  "currentManualIndex h =
     (if currentLevel h \<ge> 0 then currentLevel h
      else if loadLevel h \<ge> 0 then loadLevel h
      else if nextLevel h \<ge> 0 then nextLevel h
      else - 1)"

definition currentHeight :: "hls \<Rightarrow> int" where
  "currentHeight h =
     (let i = currentManualIndex h
      in if i \<ge> 0 \<and> nat i < length (levels h) then height (levels h ! nat i) else 0)"

text \<open>
  The two lookups of \<^verbatim>\<open>handleQualityChange\<close>: \<^verbatim>\<open>targetHeight\<close>, parsed from the
  label, and \<^verbatim>\<open>levelIndex\<close>, the first level of that height. A label that parses to
  \<^verbatim>\<open>NaN\<close> equals no height, so the search returns \<open>-1\<close> for it.
\<close>

definition targetHeight :: "string \<Rightarrow> int option" where
  "targetHeight newQuality = parseInt (remove1 (CHR ''p'') newQuality)"

definition levelIndex :: "string \<Rightarrow> hls \<Rightarrow> int" where
  "levelIndex newQuality h =
     findIndex (\<lambda>l. Some (height l) = targetHeight newQuality) (levels h)"

definition isUpgrade :: "string \<Rightarrow> hls \<Rightarrow> bool" where
  "isUpgrade newQuality h \<longleftrightarrow>
     currentHeight h > 0
     \<and> (case targetHeight newQuality of None \<Rightarrow> False | Some th \<Rightarrow> th > currentHeight h)"

text \<open>
  \<^verbatim>\<open>handleQualityChange(newQuality)\<close>, with \<open>v\<close> the element of \<^verbatim>\<open>videoRef\<close> (absent
  when the ref is empty).
\<close>

definition handleQualityChange :: "string \<Rightarrow> video option \<Rightarrow> player \<Rightarrow> player" where
  "handleQualityChange newQuality v p =
     (case hlsRef p of
        None \<Rightarrow> p
      | Some h \<Rightarrow>
          (let p1 = p\<lparr>quality := newQuality\<rparr>
           in if newQuality = ''auto''
              then p1\<lparr>hlsRef := Some (h\<lparr>currentLevel := - 1, loadLevel := - 1, nextLevel := - 1\<rparr>),
                      autoQualityLabel := None\<rparr>
              else
                (let i = levelIndex newQuality h
                 in if i = - 1 then p1
                    else
                      (let h' =
                             (if isUpgrade newQuality h
                              then
                                (let h1 = h\<lparr>currentLevel := i, nextLevel := i, loadLevel := i\<rparr>
                                 in case v of
                                      None \<Rightarrow> h1
                                    | Some el \<Rightarrow>
                                        h1\<lparr>bufferAppended := bufferAppended h1 @
                                             [\<lparr>currentPlaybackTime = currentTime el,
                                               resumePlayback = (\<not> paused el)\<rparr>]\<rparr>)
                              else
                                (let h1 = h\<lparr>nextLevel := i, loadLevel := i\<rparr>
                                 in case v of
                                      None \<Rightarrow> h1
                                    | Some el \<Rightarrow>
                                        if paused el then h1\<lparr>currentLevel := i\<rparr> else h1))
                       in p1\<lparr>hlsRef := Some h', autoQualityLabel := None\<rparr>))))"

text \<open>
  The buffer-appended signal. Each registered listener unsubscribes itself, writes the
  captured time into the element and calls \<^verbatim>\<open>play()\<close> if playback was running
  when it was registered. The listener's own test of the element is always passed: it is
  registered only when the element exists.
\<close>

definition handleBufferAppended :: "restore \<Rightarrow> video \<Rightarrow> video" where
  "handleBufferAppended r el =
     (let el1 = el\<lparr>currentTime := currentPlaybackTime r\<rparr>
      in if resumePlayback r then el1\<lparr>playCalls := playCalls el1 + 1\<rparr> else el1)"

definition fireBufferAppended :: "hls \<Rightarrow> video \<Rightarrow> hls \<times> video" where
  "fireBufferAppended h el =
     (h\<lparr>bufferAppended := []\<rparr>, foldl (\<lambda>e r. handleBufferAppended r e) el (bufferAppended h))"

subsection \<open>Runs\<close>

text \<open>
  The signals that reach the session, each with what its handler reads from the
  element, the clock or the runtime's event, and a run of them, each under the
  environment of its moment.
\<close>

datatype event =
    LoadStart number
  | LoadedMetadata number video
  | Play number
  | Pause
  | Waiting video
  | Stalled video
  | Playing number
  | CanPlay video
  | Ended
  | Error
  | BeforeUnload
  | Unmount
  | SourceChange string number
  | ManifestLoading number
  | ManifestLoaded number "string option"
  | FragLoaded "number option" "string option"

fun step :: "env \<Rightarrow> event \<Rightarrow> player \<Rightarrow> player" where
  "step e (LoadStart t) p = handleLoadStart t p"
| "step e (LoadedMetadata t v) p = handleLoadedMetadata e t v p"
| "step e (Play t) p = handlePlay t p"
| "step e Pause p = handlePause p"
| "step e (Waiting v) p = handleWaiting v p"
| "step e (Stalled v) p = handleStalled v p"
| "step e (Playing t) p = handlePlaying t p"
| "step e (CanPlay v) p = handleCanPlay e v p"
| "step e Ended p = handleEnded e p"
| "step e Error p = handleError e p"
| "step e BeforeUnload p = handleBeforeUnload e p"
| "step e Unmount p = unmountCleanup e p"
| "step e (SourceChange sid t) p = sourceChangeEffect e sid t p"
| "step e (ManifestLoading t) p = onManifestLoading t p"
| "step e (ManifestLoaded t d) p = onManifestLoaded e t d p"
| "step e (FragLoaded bw d) p = onFragLoaded bw d p"

fun run :: "(env \<times> event) list \<Rightarrow> player \<Rightarrow> player" where
  "run [] p = p"
| "run ((e, ev) # evs) p = run evs (step e ev p)"

text \<open>Whether a signal replaces the session, and whether it is the "playing" signal.\<close>

fun isSourceChange :: "event \<Rightarrow> bool" where
  "isSourceChange (SourceChange sid t) = True"
| "isSourceChange ev = False"

fun isPlayingSignal :: "event \<Rightarrow> bool" where
  "isPlayingSignal (Playing t) = True"
| "isPlayingSignal ev = False"

definition sameSession :: "(env \<times> event) list \<Rightarrow> bool" where
  "sameSession evs \<longleftrightarrow> list_all (\<lambda>x. \<not> isSourceChange (snd x)) evs"

text \<open>What is left to dispatch for the current session: one payload, or none once sent.\<close>

definition budget :: "player \<Rightarrow> nat" where
  "budget p = (if metricsSent (metrics p) then 0 else 1)"

text \<open>
  The runtime's two manifest signals, and the stall signals: every "waiting" and
  "stalled" signal, and among them those that arrive while the element is not paused
  and is short of data (\<^verbatim>\<open>readyState\<close> below 3).
\<close>

fun isManifestLoading :: "event \<Rightarrow> bool" where
  "isManifestLoading (ManifestLoading t) = True"
| "isManifestLoading ev = False"

fun isManifestLoaded :: "event \<Rightarrow> bool" where
  "isManifestLoaded (ManifestLoaded t d) = True"
| "isManifestLoaded ev = False"

fun stallSignal :: "event \<Rightarrow> bool" where
  "stallSignal (Waiting v) = True"
| "stallSignal (Stalled v) = True"
| "stallSignal ev = False"

fun starvedStall :: "event \<Rightarrow> bool" where
  "starvedStall (Waiting v) = (\<not> paused v \<and> readyState v < 3)"
| "starvedStall (Stalled v) = (\<not> paused v \<and> readyState v < 3)"
| "starvedStall ev = False"

text \<open>
  The dispatch triggers, each with the reason code and the beacon preference its handler
  passes to \<^verbatim>\<open>sendPlaybackMetrics\<close>; and those among them that leave the session in
  place (all but the source change).
\<close>

fun triggerReason :: "event \<Rightarrow> (string \<times> bool) option" where
  "triggerReason Ended = Some (''ended'', False)"
| "triggerReason Error = Some (''error'', False)"
| "triggerReason BeforeUnload = Some (''beforeunload'', True)"
| "triggerReason Unmount = Some (''unmount'', True)"
| "triggerReason (SourceChange sid t) = Some (''source_change'', False)"
| "triggerReason ev = None"

definition sessionTrigger :: "event \<Rightarrow> bool" where
  "sessionTrigger ev \<longleftrightarrow> triggerReason ev \<noteq> None \<and> \<not> isSourceChange ev"

text \<open>How many sessions a run starts.\<close>

fun sessionsStarted :: "(env \<times> event) list \<Rightarrow> nat" where
  "sessionsStarted [] = 0"
| "sessionsStarted ((e, ev) # evs) = (if isSourceChange ev then 1 else 0) + sessionsStarted evs"

text \<open>
  The delivery mechanism \<^verbatim>\<open>sendPlaybackMetrics\<close> picks for a payload: the beacon when
  it is preferred and the navigator has one, the API client otherwise.
\<close>

definition mechanism :: "env \<Rightarrow> bool \<Rightarrow> payload \<Rightarrow> dispatch" where
  "mechanism e b pl =
     (if b \<and> (case navigator e of None \<Rightarrow> False | Some n \<Rightarrow> hasSendBeacon n)
      then Beacon pl else ApiCall pl)"

subsection \<open>Sample values\<close>

definition mk_entry :: "nat \<Rightarrow> nat \<Rightarrow> nat \<Rightarrow> entry" where
  "mk_entry ts ebs dbs =
     \<lparr>name = ''https://cdn.example/v/master.m3u8'', responseEnd = 120,
      transferSize = ts, encodedBodySize = ebs, decodedBodySize = dbs,
      nextHopProtocol = ''h2''\<rparr>"

definition nav0 :: nav where
  "nav0 = \<lparr>userAgent = ''Mozilla/5.0 (iPhone; CPU iPhone OS 17_0)'', language = ''en-US'',
            connection = None, hasSendBeacon = True\<rparr>"

definition env0 :: env where
  "env0 = \<lparr>navigator = Some nav0, resources = Some [mk_entry 4100 4000 4000],
            videoId = Some ''v42'', src = ''https://cdn.example/v/master.m3u8''\<rparr>"

definition player0 :: player where
  "player0 = \<lparr>metrics = freshSession ''session-1'' 100, isPlaying = False, isLoading = True,
               isBuffering = False, error = [], quality = ''auto'',
               autoQualityLabel = Some ''720p'', hlsRef = None, dispatched = []\<rparr>"

definition hls0 :: hls where
  "hls0 = \<lparr>levels = [\<lparr>height = 1080\<rparr>, \<lparr>height = 720\<rparr>, \<lparr>height = 480\<rparr>],
            currentLevel = 2, nextLevel = 2, loadLevel = 2, bufferAppended = []\<rparr>"

definition video0 :: video where
  "video0 = \<lparr>paused = False, readyState = 4, currentTime = 42.5,
              currentSrc = ''https://cdn.example/v/master.m3u8'', playCalls = 0\<rparr>"

text \<open>
  A session that plays to the end and is then torn down, and one that is abandoned
  before any frame is shown.
\<close>

definition trace_played :: "(env \<times> event) list" where
  "trace_played =
     [(env0, LoadStart 110), (env0, LoadedMetadata 130 video0), (env0, Play 140),
      (env0, Playing 150), (env0, Ended), (env0, Unmount), (env0, BeforeUnload)]"

definition trace_abandoned :: "(env \<times> event) list" where
  "trace_abandoned =
     [(env0, LoadStart 110), (env0, Play 140), (env0, Waiting (video0\<lparr>readyState := 1\<rparr>)),
      (env0, Error), (env0, BeforeUnload), (env0, Unmount)]"

text \<open>The element playing with an empty buffer, and a player in the middle of playback.\<close>

definition video_starved :: video where
  "video_starved = video0\<lparr>readyState := 1\<rparr>"

definition player_playing :: player where
  "player_playing = run [(env0, Play 140), (env0, Playing 150)] player0"

definition trace_two_stalls :: "(env \<times> event) list" where
  "trace_two_stalls = [(env0, Waiting video_starved), (env0, Stalled video_starved)]"

text \<open>
  A player bound to a runtime with three levels, the lowest selected, and the element
  paused.
\<close>

definition player_hls :: player where
  "player_hls = player0\<lparr>hlsRef := Some hls0\<rparr>"

definition video_paused :: video where
  "video_paused = video0\<lparr>paused := True\<rparr>"




section \<open>Properties\<close>

subsection \<open>The size heuristic\<close>

lemma ratio_below_threshold:
  assumes "0 < b"
  shows "((of_nat a :: number) / of_nat b < 1.05) \<longleftrightarrow> 100 * a < 105 * b"
proof -
  have pos: "(0::number) < of_nat b" using assms by simp
  have "((of_nat a :: number) / of_nat b < 1.05) \<longleftrightarrow> (of_nat a :: number) < 1.05 * of_nat b"
    using pos by (simp add: pos_divide_less_eq mult.commute)
  also have "\<dots> \<longleftrightarrow> (of_nat (100 * a) :: number) < of_nat (105 * b)"
    by (simp add: mult.commute)
  also have "\<dots> \<longleftrightarrow> 100 * a < 105 * b"
    by (simp only: of_nat_less_iff)
  finally show ?thesis .
qed

lemma classify_disk:
  "transferSize x = 0 \<Longrightarrow> decodedBodySize x > 0 \<Longrightarrow>
     classifyDeliverySource (Some x) = Some ''disk_cache''"
  by (simp add: classifyDeliverySource_def)

lemma classify_edge:
  "transferSize x > 0 \<Longrightarrow> encodedBodySize x > 0 \<Longrightarrow>
     100 * transferSize x < 105 * encodedBodySize x \<Longrightarrow>
     classifyDeliverySource (Some x) = Some ''edge_cache''"
  using ratio_below_threshold [of "encodedBodySize x" "transferSize x"]
  by (simp add: classifyDeliverySource_def Let_def)

lemma classify_origin:
  "transferSize x > 0 \<Longrightarrow> encodedBodySize x > 0 \<Longrightarrow>
     105 * encodedBodySize x \<le> 100 * transferSize x \<Longrightarrow>
     classifyDeliverySource (Some x) = Some ''origin''"
  using ratio_below_threshold [of "encodedBodySize x" "transferSize x"]
  by (simp add: classifyDeliverySource_def Let_def)

lemma classify_none:
  "(transferSize x = 0 \<and> decodedBodySize x = 0) \<or>
   (transferSize x > 0 \<and> encodedBodySize x = 0) \<Longrightarrow>
     classifyDeliverySource (Some x) = None"
  by (auto simp add: classifyDeliverySource_def)

lemma classify_range:
  "classifyDeliverySource e \<in> {None, Some ''disk_cache'', Some ''edge_cache'', Some ''origin''}"
  by (simp add: classifyDeliverySource_def Let_def split: option.split)

text \<open>
  Claim C5, as the code has it. The classifier answers \<open>disk_cache\<close> for a zero transfer
  size with a positive decoded size; \<open>edge_cache\<close> when both the transfer size and the
  encoded size are positive and the transfer size is below 105% of the encoded size (a
  one-sided bound: any smaller transfer size counts as well); \<open>origin\<close> when both are
  positive and the transfer size is at least 105% of the encoded size; and no
  classification for an absent entry, for a zero transfer size with a zero decoded size,
  and for a positive transfer size with a zero encoded size. These cases cover every
  input, and on every input the function returns one of the four answers.
\<close>

theorem classifyDeliverySource_cases:
  "classifyDeliverySource None = None \<and>
   (transferSize x = 0 \<and> decodedBodySize x > 0 \<longrightarrow>
      classifyDeliverySource (Some x) = Some ''disk_cache'') \<and>
   (transferSize x > 0 \<and> encodedBodySize x > 0 \<and>
      100 * transferSize x < 105 * encodedBodySize x \<longrightarrow>
      classifyDeliverySource (Some x) = Some ''edge_cache'') \<and>
   (transferSize x > 0 \<and> encodedBodySize x > 0 \<and>
      105 * encodedBodySize x \<le> 100 * transferSize x \<longrightarrow>
      classifyDeliverySource (Some x) = Some ''origin'') \<and>
   (transferSize x = 0 \<and> decodedBodySize x = 0 \<longrightarrow>
      classifyDeliverySource (Some x) = None) \<and>
   (transferSize x > 0 \<and> encodedBodySize x = 0 \<longrightarrow>
      classifyDeliverySource (Some x) = None) \<and>
   classifyDeliverySource e \<in>
     {None, Some ''disk_cache'', Some ''edge_cache'', Some ''origin''}"
  using classify_disk [of x] classify_edge [of x] classify_origin [of x]
    classify_none [of x] classify_range [of e]
  by (simp add: classifyDeliverySource_def)

text \<open>
  The theorem at four entries, one per answer: 0 bytes transferred of a 4000-byte body;
  4100 bytes transferred for 4000 encoded; 5000 bytes transferred for 4000 encoded; and
  300 bytes transferred with no body.
\<close>

theorem classifyDeliverySource_cases_witness:
  "classifyDeliverySource (Some (mk_entry 0 4000 4000)) = Some ''disk_cache'' \<and>
   classifyDeliverySource (Some (mk_entry 4100 4000 4000)) = Some ''edge_cache'' \<and>
   classifyDeliverySource (Some (mk_entry 5000 4000 4000)) = Some ''origin'' \<and>
   classifyDeliverySource (Some (mk_entry 300 0 0)) = None"
  using classifyDeliverySource_cases [of "mk_entry 0 4000 4000" None]
    classifyDeliverySource_cases [of "mk_entry 4100 4000 4000" None]
    classifyDeliverySource_cases [of "mk_entry 5000 4000 4000" None]
    classifyDeliverySource_cases [of "mk_entry 300 0 0" None]
  by (simp add: mk_entry_def)

text \<open>
  Claim C5 as the specification words it fails twice. A transfer of 1 byte for an encoded
  body of 1000 bytes is nonzero and not within 5% of the encoded size, so the claim
  promises \<open>origin\<close>, and the code answers \<open>edge_cache\<close>. A transfer of 300 bytes with
  an encoded size of zero is nonzero and not within 5% either, and the code gives no
  classification.
\<close>

theorem classifyDeliverySource_counterexample:
  "transferSize (mk_entry 1 1000 1000) \<noteq> 0 \<and>
   \<not> spec_within_5_percent (transferSize (mk_entry 1 1000 1000))
        (encodedBodySize (mk_entry 1 1000 1000)) \<and>
   classifyDeliverySource (Some (mk_entry 1 1000 1000)) = Some ''edge_cache'' \<and>
   transferSize (mk_entry 300 0 0) \<noteq> 0 \<and>
   \<not> spec_within_5_percent (transferSize (mk_entry 300 0 0))
        (encodedBodySize (mk_entry 300 0 0)) \<and>
   classifyDeliverySource (Some (mk_entry 300 0 0)) = None"
  by (simp add: mk_entry_def spec_within_5_percent_def classifyDeliverySource_def)

subsection \<open>Dispatch of the session's payload\<close>

lemmas handler_defs =
  handleLoadStart_def handleLoadedMetadata_def handlePlay_def handlePause_def
  handleWaiting_def handleStalled_def handlePlaying_def handleCanPlay_def
  handleEnded_def handleError_def handleBeforeUnload_def unmountCleanup_def
  onManifestLoading_def onManifestLoaded_def onFragLoaded_def

lemma capture_frame:
  "metricsSent (captureResourceTiming e url s) = metricsSent s"
  "firstFrameAt (captureResourceTiming e url s) = firstFrameAt s"
  "playbackRequestedAt (captureResourceTiming e url s) = playbackRequestedAt s"
  "manifestRequestedAt (captureResourceTiming e url s) = manifestRequestedAt s"
  "manifestLoadedAt (captureResourceTiming e url s) = manifestLoadedAt s"
  "bufferingEvents (captureResourceTiming e url s) = bufferingEvents s"
  "sessionId (captureResourceTiming e url s) = sessionId s"
  "mountTime (captureResourceTiming e url s) = mountTime s"
  by (simp_all add: captureResourceTiming_def Let_def split: option.split list.split)

lemma send_sent: "metricsSent (metrics p) \<Longrightarrow> sendPlaybackMetrics e r b p = p"
  by (simp add: sendPlaybackMetrics_def Let_def)

lemma send_none: "constructPayload e (metrics p) r = None \<Longrightarrow> sendPlaybackMetrics e r b p = p"
  by (simp add: sendPlaybackMetrics_def Let_def)

lemma send_some:
  "\<not> metricsSent (metrics p) \<Longrightarrow> constructPayload e (metrics p) r = Some pl \<Longrightarrow>
   sendPlaybackMetrics e r b p =
     p\<lparr>metrics := (metrics p)\<lparr>metricsSent := True\<rparr>,
       dispatched := dispatched p @ [mechanism e b pl]\<rparr>"
  by (simp add: sendPlaybackMetrics_def mechanism_def Let_def)

lemma send_effect:
  "\<exists>ds. dispatched (sendPlaybackMetrics e r b p) = dispatched p @ ds \<and>
        length ds + budget (sendPlaybackMetrics e r b p) = budget p"
  by (cases "metricsSent (metrics p)"; cases "constructPayload e (metrics p) r")
     (simp_all add: send_sent send_none send_some budget_def)

lemma step_effect:
  "\<not> isSourceChange ev \<Longrightarrow>
   \<exists>ds. dispatched (step e ev p) = dispatched p @ ds \<and>
        length ds + budget (step e ev p) = budget p"
proof (cases ev)
  case Ended
  then show ?thesis using send_effect [of e "''ended''" False "p\<lparr>isPlaying := False\<rparr>"]
    by (simp add: handleEnded_def budget_def)
next
  case Error
  then show ?thesis using send_effect [of e "''error''" False "p\<lparr>error := ''Playback error''\<rparr>"]
    by (simp add: handleError_def budget_def)
next
  case BeforeUnload
  then show ?thesis using send_effect [of e "''beforeunload''" True p]
    by (simp add: handleBeforeUnload_def)
next
  case Unmount
  then show ?thesis using send_effect [of e "''unmount''" True p]
    by (simp add: unmountCleanup_def)
qed (simp_all add: handler_defs budget_def capture_frame Let_def split: option.split)

lemma run_effect:
  "sameSession evs \<Longrightarrow>
   \<exists>ds. dispatched (run evs p) = dispatched p @ ds \<and>
        length ds + budget (run evs p) = budget p"
proof (induction evs arbitrary: p)
  case Nil
  then show ?case by simp
next
  case (Cons x evs)
  obtain e ev where x: "x = (e, ev)" by (cases x)
  from Cons.prems x have nsc: "\<not> isSourceChange ev" and rest: "sameSession evs"
    by (simp_all add: sameSession_def)
  from step_effect [OF nsc, of e p] obtain ds1 where
    d1: "dispatched (step e ev p) = dispatched p @ ds1" and
    b1: "length ds1 + budget (step e ev p) = budget p" by blast
  from Cons.IH [OF rest, of "step e ev p"] obtain ds2 where
    d2: "dispatched (run evs (step e ev p)) = dispatched (step e ev p) @ ds2" and
    b2: "length ds2 + budget (run evs (step e ev p)) = budget (step e ev p)" by blast
  show ?case
    using d1 b1 d2 b2 x by (intro exI [of _ "ds1 @ ds2"]) simp
qed


lemma payload_needs_frame:
  "constructPayload e s r = Some pl \<Longrightarrow> truthyNum (firstFrameAt s) \<and> navigator e \<noteq> None"
  by (auto simp add: constructPayload_def truthyNum_def Let_def split: option.splits if_splits)

lemma payload_none:
  "firstFrameAt s = None \<or> navigator e = None \<Longrightarrow> constructPayload e s r = None"
  by (auto simp add: constructPayload_def Let_def split: option.splits)

lemma send_frame:
  "firstFrameAt (metrics (sendPlaybackMetrics e r b p)) = firstFrameAt (metrics p)"
  by (simp add: sendPlaybackMetrics_def Let_def split: option.split)

lemma step_no_frame:
  "\<not> isSourceChange ev \<Longrightarrow> \<not> isPlayingSignal ev \<Longrightarrow>
   firstFrameAt (metrics (step e ev p)) = firstFrameAt (metrics p)"
  by (cases ev) (simp_all add: handler_defs send_frame capture_frame Let_def split: option.split)

lemma step_unframed:
  "firstFrameAt (metrics p) = None \<Longrightarrow> dispatched (step e ev p) = dispatched p"
  by (cases ev)
     (simp_all add: handler_defs sourceChangeEffect_def truthyNum_def send_none payload_none Let_def)

lemma step_unframed_flag:
  "\<not> isSourceChange ev \<Longrightarrow> firstFrameAt (metrics p) = None \<Longrightarrow>
    metricsSent (metrics (step e ev p)) = metricsSent (metrics p)"
  by (cases ev)
     (simp_all add: handler_defs truthyNum_def capture_frame send_none payload_none Let_def split: option.split)

lemma run_unframed:
  "sameSession evs \<Longrightarrow> list_all (\<lambda>x. \<not> isPlayingSignal (snd x)) evs \<Longrightarrow>
   firstFrameAt (metrics p) = None \<Longrightarrow>
   firstFrameAt (metrics (run evs p)) = None \<and> dispatched (run evs p) = dispatched p
   \<and> metricsSent (metrics (run evs p)) = metricsSent (metrics p)"
proof (induction evs arbitrary: p)
  case Nil
  then show ?case by simp
next
  case (Cons x evs)
  obtain e ev where x: "x = (e, ev)" by (cases x)
  from Cons.prems x have nsc: "\<not> isSourceChange ev" and np: "\<not> isPlayingSignal ev"
    and rest: "sameSession evs" "list_all (\<lambda>x. \<not> isPlayingSignal (snd x)) evs"
    by (simp_all add: sameSession_def)
  have f: "firstFrameAt (metrics (step e ev p)) = None"
    using step_no_frame [OF nsc np] Cons.prems(3) by simp
  show ?case
    using Cons.IH [OF rest f] step_unframed [OF Cons.prems(3), of e ev]
      step_unframed_flag [OF nsc Cons.prems(3), of e] x
    by simp
qed

lemma run_sent:
  assumes "sameSession evs" "metricsSent (metrics p)"
  shows "metricsSent (metrics (run evs p)) \<and> dispatched (run evs p) = dispatched p"
proof -
  from run_effect [OF assms(1), of p] obtain ds where
    "dispatched (run evs p) = dispatched p @ ds" "length ds + budget (run evs p) = budget p"
    by blast
  then show ?thesis using assms(2) by (simp add: budget_def split: if_splits)
qed

lemma source_change_effect:
  "\<exists>ds. dispatched (sourceChangeEffect e sid t p) = dispatched p @ ds \<and> length ds \<le> budget p
     \<and> budget (sourceChangeEffect e sid t p) = 1"
  using send_effect [of e "''source_change''" False p]
  by (auto simp add: sourceChangeEffect_def budget_def freshSession_def Let_def)

lemma run_bound:
  "length (dispatched (run evs p)) + budget (run evs p)
     \<le> length (dispatched p) + budget p + sessionsStarted evs"
proof (induction evs arbitrary: p)
  case Nil
  then show ?case by simp
next
  case (Cons x evs)
  obtain e ev where x: "x = (e, ev)" by (cases x)
  have "length (dispatched (step e ev p)) + budget (step e ev p)
          \<le> length (dispatched p) + budget p + (if isSourceChange ev then 1 else 0)"
  proof (cases "isSourceChange ev")
    case True
    then obtain sid t where "ev = SourceChange sid t" by (cases ev) simp_all
    then show ?thesis using source_change_effect [of e sid t p] by auto
  next
    case False
    then show ?thesis using step_effect [OF False, of e p] by auto
  qed
  then show ?case using Cons.IH [of "step e ev p"] x by simp
qed


lemma played_eval:
  "sameSession trace_played \<and>
   length (dispatched (run trace_played player0)) = 1 \<and>
   metricsSent (metrics (run trace_played player0)) \<and>
   firstFrameAt (metrics (run trace_played player0)) = Some 150"
  by (simp add: trace_played_def player0_def env0_def video0_def nav0_def mk_entry_def
      sameSession_def handler_defs freshSession_def sendPlaybackMetrics_def
      constructPayload_def captureResourceTiming_def nullish_def truthyNum_def startsWith_def
      classifyDeliverySource_def Let_def)

lemma abandoned_eval:
  "sameSession trace_abandoned \<and> list_all (\<lambda>x. \<not> isPlayingSignal (snd x)) trace_abandoned \<and>
   firstFrameAt (metrics player0) = None \<and>
   dispatched (run trace_abandoned player0) = []"
  by (simp add: trace_abandoned_def player0_def env0_def video0_def nav0_def mk_entry_def
      sameSession_def handler_defs freshSession_def sendPlaybackMetrics_def
      constructPayload_def captureResourceTiming_def nullish_def truthyNum_def startsWith_def
      classifyDeliverySource_def Let_def)


text \<open>
  Claim C1. \<^verbatim>\<open>sendPlaybackMetrics\<close> returns the state as it is, dispatching nothing, when
  \<open>metricsSent\<close> is already true. Over any run of signals within one session, the
  payloads dispatched extend the earlier ones by as many as the flag has flipped from
  false to true, which is at most once; once the flag is true it stays true and nothing
  more is dispatched, also by the source-change flush that ends the session. Over any
  run at all, the payloads dispatched are at most one per session. A payload is
  constructed only when \<open>firstFrameAt\<close> is set, and in a session where it was never
  written (it is unset and no "playing" signal arrives) no trigger dispatches anything:
  not ended, error, beforeunload or unmount, and not the source change that ends it.
\<close>

theorem metrics_dispatched_at_most_once:
  "(metricsSent (metrics p) \<longrightarrow> sendPlaybackMetrics e r b p = p) \<and>
   (sameSession evs \<longrightarrow>
      (\<exists>ds. dispatched (run evs p) = dispatched p @ ds \<and>
            length ds + budget (run evs p) = budget p)) \<and>
   (sameSession evs \<and> metricsSent (metrics p) \<longrightarrow>
      metricsSent (metrics (run evs p)) \<and> dispatched (run evs p) = dispatched p) \<and>
   (sameSession evs \<longrightarrow>
      (\<exists>ds. dispatched (sourceChangeEffect e sid t (run evs p)) = dispatched p @ ds \<and>
            length ds \<le> budget p)) \<and>
   length (dispatched (run evs p)) + budget (run evs p)
     \<le> length (dispatched p) + budget p + sessionsStarted evs \<and>
   (constructPayload e s r = Some pl \<longrightarrow> firstFrameAt s \<noteq> None) \<and>
   (sameSession evs \<and> list_all (\<lambda>x. \<not> isPlayingSignal (snd x)) evs \<and>
    firstFrameAt (metrics p) = None \<longrightarrow>
      dispatched (run evs p) = dispatched p \<and>
      metricsSent (metrics (run evs p)) = metricsSent (metrics p) \<and>
      dispatched (sourceChangeEffect e sid t (run evs p)) = dispatched p)"
proof (intro conjI impI)
  assume "metricsSent (metrics p)"
  then show "sendPlaybackMetrics e r b p = p" by (rule send_sent)
next
  assume "sameSession evs"
  then show "\<exists>ds. dispatched (run evs p) = dispatched p @ ds \<and>
            length ds + budget (run evs p) = budget p" by (rule run_effect)
next
  assume "sameSession evs \<and> metricsSent (metrics p)"
  then show "metricsSent (metrics (run evs p))" using run_sent by blast
next
  assume "sameSession evs \<and> metricsSent (metrics p)"
  then show "dispatched (run evs p) = dispatched p" using run_sent by blast
next
  assume ss: "sameSession evs"
  from run_effect [OF ss, of p] obtain ds1 where
    d1: "dispatched (run evs p) = dispatched p @ ds1" and
    b1: "length ds1 + budget (run evs p) = budget p" by blast
  from source_change_effect [of e sid t "run evs p"] obtain ds2 where
    d2: "dispatched (sourceChangeEffect e sid t (run evs p)) = dispatched (run evs p) @ ds2" and
    b2: "length ds2 \<le> budget (run evs p)" by blast
  show "\<exists>ds. dispatched (sourceChangeEffect e sid t (run evs p)) = dispatched p @ ds \<and>
            length ds \<le> budget p"
    using d1 b1 d2 b2 by (intro exI [of _ "ds1 @ ds2"]) simp
next
  show "length (dispatched (run evs p)) + budget (run evs p)
     \<le> length (dispatched p) + budget p + sessionsStarted evs" by (rule run_bound)
next
  assume "constructPayload e s r = Some pl"
  then show "firstFrameAt s \<noteq> None"
    using payload_needs_frame [of e s r pl] by (auto simp add: truthyNum_def split: option.splits)
next
  assume a: "sameSession evs \<and> list_all (\<lambda>x. \<not> isPlayingSignal (snd x)) evs \<and>
    firstFrameAt (metrics p) = None"
  then show "dispatched (run evs p) = dispatched p" using run_unframed by blast
next
  assume a: "sameSession evs \<and> list_all (\<lambda>x. \<not> isPlayingSignal (snd x)) evs \<and>
    firstFrameAt (metrics p) = None"
  then show "metricsSent (metrics (run evs p)) = metricsSent (metrics p)"
    using run_unframed by blast
next
  assume a: "sameSession evs \<and> list_all (\<lambda>x. \<not> isPlayingSignal (snd x)) evs \<and>
    firstFrameAt (metrics p) = None"
  then have "firstFrameAt (metrics (run evs p)) = None" and "dispatched (run evs p) = dispatched p"
    using run_unframed by blast+
  then show "dispatched (sourceChangeEffect e sid t (run evs p)) = dispatched p"
    using step_unframed [of "run evs p" e "SourceChange sid t"] by simp
qed

text \<open>
  The theorem at a session that plays and ends (one payload, and none added by the
  unmount, the unload or the next source change) and at a session abandoned before the
  first frame (no payload).
\<close>

theorem metrics_dispatched_at_most_once_witness:
  "sameSession trace_played \<and>
   length (dispatched (run trace_played player0)) = 1 \<and>
   metricsSent (metrics (run trace_played player0)) \<and>
   length (dispatched (sourceChangeEffect env0 ''session-2'' 900 (run trace_played player0))) = 1 \<and>
   sameSession trace_abandoned \<and>
   list_all (\<lambda>x. \<not> isPlayingSignal (snd x)) trace_abandoned \<and>
   firstFrameAt (metrics player0) = None \<and>
   dispatched (run trace_abandoned player0) = [] \<and>
   \<not> metricsSent (metrics (run trace_abandoned player0)) \<and>
   dispatched (sourceChangeEffect env0 ''session-2'' 900 (run trace_abandoned player0)) = []"
proof -
  have budget0: "budget player0 = 1" "dispatched player0 = []" "\<not> metricsSent (metrics player0)"
    by (simp_all add: budget_def player0_def freshSession_def)
  note played = metrics_dispatched_at_most_once
    [where p = player0 and e = env0 and evs = trace_played and sid = "''session-2''" and t = 900]
  note abandoned = metrics_dispatched_at_most_once
    [where p = player0 and e = env0 and evs = trace_abandoned and sid = "''session-2''"
       and t = 900]
  from played played_eval budget0 obtain ds where
    "dispatched (sourceChangeEffect env0 ''session-2'' 900 (run trace_played player0)) = ds"
    "length ds \<le> 1" by auto
  moreover from source_change_effect [of env0 "''session-2''" 900 "run trace_played player0"]
    played_eval
  have "1 \<le> length (dispatched (sourceChangeEffect env0 ''session-2'' 900 (run trace_played player0)))"
    by auto
  ultimately have one:
    "length (dispatched (sourceChangeEffect env0 ''session-2'' 900 (run trace_played player0))) = 1"
    by simp
  from abandoned abandoned_eval budget0 have none:
    "dispatched (run trace_abandoned player0) = []"
    "\<not> metricsSent (metrics (run trace_abandoned player0))"
    "dispatched (sourceChangeEffect env0 ''session-2'' 900 (run trace_abandoned player0)) = []"
    by simp_all
  show ?thesis using played_eval abandoned_eval one none by simp
qed

lemma payload_some:
  "truthyNum (firstFrameAt s) \<Longrightarrow> navigator e \<noteq> None \<Longrightarrow>
   \<exists>pl. constructPayload e s r = Some pl"
  by (auto simp add: constructPayload_def truthyNum_def Let_def split: option.splits)

lemma trigger_fails:
  assumes "sessionTrigger tr" and "firstFrameAt (metrics p) = None \<or> navigator e = None"
  shows "metrics (step e tr p) = metrics p \<and> dispatched (step e tr p) = dispatched p"
proof -
  have none: "\<And>r p'. metrics p' = metrics p \<Longrightarrow> sendPlaybackMetrics e r b p' = p'" for b
    using payload_none [OF assms(2)] send_none by simp
  show ?thesis
    using assms(1)
    by (cases tr)
       (simp_all add: sessionTrigger_def handleEnded_def handleError_def handleBeforeUnload_def
          unmountCleanup_def none)
qed

lemma send_both:
  "\<not> metricsSent (metrics p) \<Longrightarrow> constructPayload e (metrics p) r = Some pl \<Longrightarrow>
   dispatched (sendPlaybackMetrics e r b p) = dispatched p @ [mechanism e b pl] \<and>
   metricsSent (metrics (sendPlaybackMetrics e r b p))"
  by (simp add: send_some)

lemma trigger_dispatches:
  assumes "triggerReason tr = Some (r, b)" and "\<not> metricsSent (metrics q)"
    and "constructPayload e (metrics q) r = Some pl"
  shows "dispatched (step e tr q) = dispatched q @ [mechanism e b pl] \<and>
         (\<not> isSourceChange tr \<longrightarrow> metricsSent (metrics (step e tr q)))"
proof (cases tr)
  case Ended
  with assms(1) have rb: "r = ''ended''" "b = False" by simp_all
  show ?thesis
    using send_both [of "q\<lparr>isPlaying := False\<rparr>" e "''ended''" pl False] assms(2,3)
    unfolding Ended rb by (simp add: handleEnded_def)
next
  case Error
  with assms(1) have rb: "r = ''error''" "b = False" by simp_all
  show ?thesis
    using send_both [of "q\<lparr>error := ''Playback error''\<rparr>" e "''error''" pl False] assms(2,3)
    unfolding Error rb by (simp add: handleError_def)
next
  case BeforeUnload
  with assms(1) have rb: "r = ''beforeunload''" "b = True" by simp_all
  show ?thesis
    using send_both [of q e "''beforeunload''" pl True] assms(2,3)
      payload_needs_frame [OF assms(3)]
    unfolding BeforeUnload rb by (simp add: handleBeforeUnload_def)
next
  case Unmount
  with assms(1) have rb: "r = ''unmount''" "b = True" by simp_all
  show ?thesis
    using send_both [of q e "''unmount''" pl True] assms(2,3) payload_needs_frame [OF assms(3)]
    unfolding Unmount rb by (simp add: unmountCleanup_def)
next
  case (SourceChange sid t)
  with assms(1) have rb: "r = ''source_change''" "b = False" by simp_all
  show ?thesis
    using send_both [of q e "''source_change''" pl False] assms(2,3)
      payload_needs_frame [OF assms(3)]
    unfolding SourceChange rb by (simp add: sourceChangeEffect_def Let_def)
qed (use assms(1) in simp_all)

text \<open>
  Claim C10. A call of \<^verbatim>\<open>sendPlaybackMetrics\<close> while \<open>firstFrameAt\<close> is unset, or
  without a navigator, leaves the whole state as it is; in particular \<open>metricsSent\<close>
  stays false. So each trigger that keeps the session (ended, error, beforeunload,
  unmount) leaves the session and the dispatched payloads as they are when it fires in
  that situation. When the first frame is shown afterwards, the next trigger under a
  navigator, whichever of the five it is, passes its own guard, constructs the payload
  with its reason code and dispatches it, as the only payload added; and in general,
  after any further signals, a trigger that finds the flag false, the first frame set
  and a navigator dispatches the session's payload.
\<close>

theorem failed_trigger_keeps_session:
  "(firstFrameAt (metrics p) = None \<or> navigator e = None \<longrightarrow>
      sendPlaybackMetrics e r b p = p) \<and>
   (\<not> metricsSent (metrics p) \<and> (firstFrameAt (metrics p) = None \<or> navigator e = None) \<longrightarrow>
      \<not> metricsSent (metrics (sendPlaybackMetrics e r b p))) \<and>
   (sessionTrigger tr \<and> (firstFrameAt (metrics p) = None \<or> navigator e = None) \<longrightarrow>
      metrics (step e tr p) = metrics p \<and> dispatched (step e tr p) = dispatched p) \<and>
   (sessionTrigger tr \<and> \<not> metricsSent (metrics p) \<and> firstFrameAt (metrics p) = None \<and>
    t \<noteq> 0 \<and> navigator e' \<noteq> None \<and> triggerReason tr' = Some (r', b') \<longrightarrow>
      (\<exists>pl. constructPayload e' (metrics (step e (Playing t) (step e tr p))) r' = Some pl \<and>
            dispatched (step e' tr' (step e (Playing t) (step e tr p)))
              = dispatched p @ [mechanism e' b' pl]) \<and>
      (\<not> isSourceChange tr' \<longrightarrow>
         metricsSent (metrics (step e' tr' (step e (Playing t) (step e tr p)))))) \<and>
   (sessionTrigger tr \<and> (firstFrameAt (metrics p) = None \<or> navigator e = None) \<and>
    \<not> metricsSent (metrics (run evs (step e tr p))) \<and>
    truthyNum (firstFrameAt (metrics (run evs (step e tr p)))) \<and>
    navigator e' \<noteq> None \<and> triggerReason tr' = Some (r', b') \<longrightarrow>
      (\<exists>pl. constructPayload e' (metrics (run evs (step e tr p))) r' = Some pl \<and>
            dispatched (step e' tr' (run evs (step e tr p)))
              = dispatched (run evs (step e tr p)) @ [mechanism e' b' pl]) \<and>
      (\<not> isSourceChange tr' \<longrightarrow>
         metricsSent (metrics (step e' tr' (run evs (step e tr p))))))"
proof (intro conjI impI)
  assume "firstFrameAt (metrics p) = None \<or> navigator e = None"
  then show "sendPlaybackMetrics e r b p = p"
    using payload_none [of "metrics p" e r] send_none by blast
next
  assume "\<not> metricsSent (metrics p) \<and> (firstFrameAt (metrics p) = None \<or> navigator e = None)"
  then show "\<not> metricsSent (metrics (sendPlaybackMetrics e r b p))"
    using payload_none [of "metrics p" e r] send_none [of e p r b] by auto
next
  assume a: "sessionTrigger tr \<and> (firstFrameAt (metrics p) = None \<or> navigator e = None)"
  then show "metrics (step e tr p) = metrics p" using trigger_fails by blast
  from a show "dispatched (step e tr p) = dispatched p" using trigger_fails by blast
next
  assume a: "sessionTrigger tr \<and> \<not> metricsSent (metrics p) \<and> firstFrameAt (metrics p) = None \<and>
    t \<noteq> 0 \<and> navigator e' \<noteq> None \<and> triggerReason tr' = Some (r', b')"
  let ?q = "step e (Playing t) (step e tr p)"
  from a have keep: "metrics (step e tr p) = metrics p" "dispatched (step e tr p) = dispatched p"
    using trigger_fails [of tr p e] by simp_all
  have q: "\<not> metricsSent (metrics ?q)" "truthyNum (firstFrameAt (metrics ?q))"
    "dispatched ?q = dispatched p"
    using a keep by (simp_all add: handlePlaying_def nullish_def truthyNum_def Let_def)
  from payload_some [OF q(2), of e' r'] a obtain pl where
    pl: "constructPayload e' (metrics ?q) r' = Some pl" by blast
  from a have tr': "triggerReason tr' = Some (r', b')" by simp
  show "\<exists>pl. constructPayload e' (metrics ?q) r' = Some pl \<and>
            dispatched (step e' tr' ?q) = dispatched p @ [mechanism e' b' pl]"
    using pl trigger_dispatches [OF tr' q(1) pl] q(3) by (intro exI [of _ pl]) simp
  show "\<not> isSourceChange tr' \<Longrightarrow> metricsSent (metrics (step e' tr' ?q))"
    using trigger_dispatches [OF tr' q(1) pl] by simp
next
  assume a: "sessionTrigger tr \<and> (firstFrameAt (metrics p) = None \<or> navigator e = None) \<and>
    \<not> metricsSent (metrics (run evs (step e tr p))) \<and>
    truthyNum (firstFrameAt (metrics (run evs (step e tr p)))) \<and>
    navigator e' \<noteq> None \<and> triggerReason tr' = Some (r', b')"
  let ?q = "run evs (step e tr p)"
  from a have q: "\<not> metricsSent (metrics ?q)" "truthyNum (firstFrameAt (metrics ?q))"
    and tr': "triggerReason tr' = Some (r', b')" by simp_all
  from payload_some [OF q(2), of e' r'] a obtain pl where
    pl: "constructPayload e' (metrics ?q) r' = Some pl" by blast
  show "\<exists>pl. constructPayload e' (metrics ?q) r' = Some pl \<and>
            dispatched (step e' tr' ?q) = dispatched ?q @ [mechanism e' b' pl]"
    using pl trigger_dispatches [OF tr' q(1) pl] by (intro exI [of _ pl]) simp
  show "\<not> isSourceChange tr' \<Longrightarrow> metricsSent (metrics (step e' tr' ?q))"
    using trigger_dispatches [OF tr' q(1) pl] by simp
qed


text \<open>
  The theorem at a fresh session: "ended" before any frame changes nothing, "error"
  without a navigator after the first frame changes nothing, and the unmount, or the
  page unload, that follows dispatches the one payload by beacon.
\<close>

theorem failed_trigger_keeps_session_witness:
  "sessionTrigger Ended \<and> sessionTrigger Error \<and>
   firstFrameAt (metrics player0) = None \<and> \<not> metricsSent (metrics player0) \<and>
   sendPlaybackMetrics env0 ''ended'' False player0 = player0 \<and>
   metrics (step env0 Ended player0) = metrics player0 \<and>
   dispatched (step env0 Ended player0) = [] \<and>
   dispatched (step (env0\<lparr>navigator := None\<rparr>) Error
                (step env0 (Playing 150) (step env0 Ended player0))) = [] \<and>
   \<not> metricsSent (metrics (step (env0\<lparr>navigator := None\<rparr>) Error
                (step env0 (Playing 150) (step env0 Ended player0)))) \<and>
   (\<exists>pl. constructPayload env0
            (metrics (step env0 (Playing 150) (step env0 Ended player0))) ''unmount'' = Some pl \<and>
         dispatched (step env0 Unmount (step env0 (Playing 150) (step env0 Ended player0)))
           = [Beacon pl]) \<and>
   metricsSent (metrics (step env0 Unmount (step env0 (Playing 150) (step env0 Ended player0)))) \<and>
   (\<exists>pl. dispatched (step env0 BeforeUnload
            (run [(env0, Playing 150), (env0\<lparr>navigator := None\<rparr>, Error)]
               (step env0 Ended player0))) = [Beacon pl])"
proof -
  let ?nonav = "env0\<lparr>navigator := None\<rparr>"
  let ?q1 = "step env0 (Playing 150) (step env0 Ended player0)"
  let ?q2 = "run [(env0, Playing 150), (?nonav, Error)] (step env0 Ended player0)"
  have h: "firstFrameAt (metrics player0) = None" "\<not> metricsSent (metrics player0)"
    "dispatched player0 = []" "navigator env0 \<noteq> None" "(150::number) \<noteq> 0"
    "navigator ?nonav = None"
    by (simp_all add: player0_def freshSession_def env0_def)
  have tr: "sessionTrigger Ended" "sessionTrigger Error"
    "triggerReason Unmount = Some (''unmount'', True)"
    "triggerReason BeforeUnload = Some (''beforeunload'', True)"
    "\<not> isSourceChange Unmount"
    by (simp_all add: sessionTrigger_def)
  have beacon: "\<And>pl. mechanism env0 True pl = Beacon pl"
    by (simp add: mechanism_def env0_def nav0_def)
  note a = failed_trigger_keeps_session
    [where p = player0 and e = env0 and r = "''ended''" and b = False and tr = Ended
       and t = 150 and e' = env0 and tr' = Unmount and r' = "''unmount''" and b' = True]
  from a [THEN conjunct1] h have same:
    "sendPlaybackMetrics env0 ''ended'' False player0 = player0" by simp
  from a [THEN conjunct2, THEN conjunct2, THEN conjunct1] tr h have ended:
    "metrics (step env0 Ended player0) = metrics player0"
    "dispatched (step env0 Ended player0) = []" by simp_all
  from a [THEN conjunct2, THEN conjunct2, THEN conjunct2, THEN conjunct1] tr h beacon
  have unmount:
    "\<exists>pl. constructPayload env0 (metrics ?q1) ''unmount'' = Some pl \<and>
          dispatched (step env0 Unmount ?q1) = [Beacon pl]"
    "metricsSent (metrics (step env0 Unmount ?q1))" by simp_all
  have q1: "dispatched ?q1 = []" "\<not> metricsSent (metrics ?q1)"
    "truthyNum (firstFrameAt (metrics ?q1))"
    using ended h by (simp_all add: handlePlaying_def nullish_def truthyNum_def Let_def)
  note b = failed_trigger_keeps_session
    [where p = ?q1 and e = ?nonav and tr = Error and evs = "[]" and e' = env0
       and tr' = BeforeUnload and r' = "''beforeunload''" and b' = True]
  from b [THEN conjunct2, THEN conjunct2, THEN conjunct1] tr h have err:
    "metrics (step ?nonav Error ?q1) = metrics ?q1"
    "dispatched (step ?nonav Error ?q1) = dispatched ?q1" by simp_all
  have q2: "?q2 = step ?nonav Error ?q1" by simp
  from b [THEN conjunct2, THEN conjunct2, THEN conjunct2, THEN conjunct2] tr h err q1 beacon
  have unload: "\<exists>pl. dispatched (step env0 BeforeUnload (step ?nonav Error ?q1)) = [Beacon pl]"
    by auto
  show ?thesis
    using tr(1,2) h(1,2) same ended unmount err q1 unload unfolding q2 by simp
qed

subsection \<open>Timestamps\<close>

lemma send_stamps:
  "playbackRequestedAt (metrics (sendPlaybackMetrics e r b p)) = playbackRequestedAt (metrics p)"
  "manifestRequestedAt (metrics (sendPlaybackMetrics e r b p)) = manifestRequestedAt (metrics p)"
  "manifestLoadedAt (metrics (sendPlaybackMetrics e r b p)) = manifestLoadedAt (metrics p)"
  "bufferingEvents (metrics (sendPlaybackMetrics e r b p)) = bufferingEvents (metrics p)"
  by (simp_all add: sendPlaybackMetrics_def Let_def split: option.split)

lemma step_keeps_playbackRequestedAt:
  "\<not> isSourceChange ev \<Longrightarrow> playbackRequestedAt (metrics p) = Some a \<Longrightarrow>
   playbackRequestedAt (metrics (step e ev p)) = Some a"
  by (cases ev)
     (simp_all add: handler_defs send_stamps capture_frame nullish_def Let_def split: option.split)

lemma step_keeps_firstFrameAt:
  "\<not> isSourceChange ev \<Longrightarrow> firstFrameAt (metrics p) = Some a \<Longrightarrow>
   firstFrameAt (metrics (step e ev p)) = Some a"
  by (cases ev)
     (simp_all add: handler_defs send_frame capture_frame nullish_def Let_def split: option.split)

lemma step_keeps_manifestRequestedAt:
  "\<not> isSourceChange ev \<Longrightarrow> \<not> isManifestLoading ev \<Longrightarrow>
   manifestRequestedAt (metrics p) = Some a \<Longrightarrow>
   manifestRequestedAt (metrics (step e ev p)) = Some a"
  by (cases ev)
     (simp_all add: handler_defs send_stamps capture_frame nullish_def Let_def split: option.split)

lemma step_keeps_manifestLoadedAt:
  "\<not> isSourceChange ev \<Longrightarrow> \<not> isManifestLoaded ev \<Longrightarrow>
   manifestLoadedAt (metrics p) = Some a \<Longrightarrow>
   manifestLoadedAt (metrics (step e ev p)) = Some a"
  by (cases ev)
     (simp_all add: handler_defs send_stamps capture_frame nullish_def Let_def split: option.split)

lemma run_keeps:
  assumes stepk: "\<And>e ev p. Q ev \<Longrightarrow> f (metrics p) = Some a \<Longrightarrow> f (metrics (step e ev p)) = Some a"
  shows "list_all (\<lambda>x. Q (snd x)) evs \<Longrightarrow> f (metrics p) = Some a \<Longrightarrow>
         f (metrics (run evs p)) = Some (a::number)"
proof (induction evs arbitrary: p)
  case Nil
  then show ?case by simp
next
  case (Cons x evs)
  obtain e ev where x: "x = (e, ev)" by (cases x)
  from Cons.prems x have q: "Q ev" and rest: "list_all (\<lambda>x. Q (snd x)) evs" by simp_all
  show ?case using Cons.IH [OF rest stepk [OF q Cons.prems(2), of e]] x by simp
qed

lemma run_keeps_playbackRequestedAt:
  "sameSession evs \<Longrightarrow> playbackRequestedAt (metrics p) = Some a \<Longrightarrow>
   playbackRequestedAt (metrics (run evs p)) = Some a"
  unfolding sameSession_def
  by (rule run_keeps [where Q = "\<lambda>ev. \<not> isSourceChange ev"])
     (simp_all add: step_keeps_playbackRequestedAt)

lemma run_keeps_firstFrameAt:
  "sameSession evs \<Longrightarrow> firstFrameAt (metrics p) = Some a \<Longrightarrow>
   firstFrameAt (metrics (run evs p)) = Some a"
  unfolding sameSession_def
  by (rule run_keeps [where Q = "\<lambda>ev. \<not> isSourceChange ev"])
     (simp_all add: step_keeps_firstFrameAt)

lemma list_all_conj:
  "list_all (\<lambda>x. P x) xs \<Longrightarrow> list_all (\<lambda>x. R x) xs \<Longrightarrow> list_all (\<lambda>x. P x \<and> R x) xs"
  by (induction xs) simp_all

lemma run_keeps_manifestRequestedAt:
  assumes "sameSession evs" "list_all (\<lambda>x. \<not> isManifestLoading (snd x)) evs"
    "manifestRequestedAt (metrics p) = Some a"
  shows "manifestRequestedAt (metrics (run evs p)) = Some a"
proof -
  have "list_all (\<lambda>x. \<not> isSourceChange (snd x) \<and> \<not> isManifestLoading (snd x)) evs"
    using assms(1,2) unfolding sameSession_def by (rule list_all_conj)
  then show ?thesis
    using assms(3)
    by (rule run_keeps [where Q = "\<lambda>ev. \<not> isSourceChange ev \<and> \<not> isManifestLoading ev", rotated])
       (simp add: step_keeps_manifestRequestedAt)
qed

lemma run_keeps_manifestLoadedAt:
  assumes "sameSession evs" "list_all (\<lambda>x. \<not> isManifestLoaded (snd x)) evs"
    "manifestLoadedAt (metrics p) = Some a"
  shows "manifestLoadedAt (metrics (run evs p)) = Some a"
proof -
  have "list_all (\<lambda>x. \<not> isSourceChange (snd x) \<and> \<not> isManifestLoaded (snd x)) evs"
    using assms(1,2) unfolding sameSession_def by (rule list_all_conj)
  then show ?thesis
    using assms(3)
    by (rule run_keeps [where Q = "\<lambda>ev. \<not> isSourceChange ev \<and> \<not> isManifestLoaded ev", rotated])
       (simp add: step_keeps_manifestLoadedAt)
qed

lemma manifest_signals_overwrite:
  "manifestRequestedAt (metrics (onManifestLoading t p)) = Some t"
  "manifestLoadedAt (metrics (onManifestLoaded e t d p)) = Some t"
  by (simp_all add: onManifestLoading_def onManifestLoaded_def capture_frame Let_def)

text \<open>
  Claim C2, as the code has it. Within a session, \<open>playbackRequestedAt\<close> and
  \<open>firstFrameAt\<close> are written at most once: once set, no signal changes them.
  \<open>manifestRequestedAt\<close>, once set, is changed by no signal but the runtime's
  manifest-loading signal (so not by a later load-start), and \<open>manifestLoadedAt\<close>,
  once set, by no signal but the runtime's manifest-loaded signal (so not by a later
  metadata-loaded). Each of these two runtime signals stores its own time, whatever the
  field held.
\<close>

theorem timestamps_first_write:
  "(sameSession evs \<and> playbackRequestedAt (metrics p) = Some a \<longrightarrow>
      playbackRequestedAt (metrics (run evs p)) = Some a) \<and>
   (sameSession evs \<and> firstFrameAt (metrics p) = Some a \<longrightarrow>
      firstFrameAt (metrics (run evs p)) = Some a) \<and>
   (sameSession evs \<and> list_all (\<lambda>x. \<not> isManifestLoading (snd x)) evs \<and>
    manifestRequestedAt (metrics p) = Some a \<longrightarrow>
      manifestRequestedAt (metrics (run evs p)) = Some a) \<and>
   (sameSession evs \<and> list_all (\<lambda>x. \<not> isManifestLoaded (snd x)) evs \<and>
    manifestLoadedAt (metrics p) = Some a \<longrightarrow>
      manifestLoadedAt (metrics (run evs p)) = Some a) \<and>
   manifestRequestedAt (metrics (onManifestLoading t p)) = Some t \<and>
   manifestLoadedAt (metrics (onManifestLoaded e t d p)) = Some t"
  using run_keeps_playbackRequestedAt [of evs p a] run_keeps_firstFrameAt [of evs p a]
    run_keeps_manifestRequestedAt [of evs p a] run_keeps_manifestLoadedAt [of evs p a]
    manifest_signals_overwrite
  by blast


text \<open>
  The theorem at sessions whose field is already set when a second signal of the same
  kind, and then a whole playback, follow.
\<close>

theorem timestamps_first_write_witness:
  "sameSession trace_played \<and>
   playbackRequestedAt (metrics (handlePlay 140 player0)) = Some 140 \<and>
   playbackRequestedAt (metrics (run ((env0, Play 999) # trace_played) (handlePlay 140 player0)))
     = Some 140 \<and>
   firstFrameAt (metrics (run ((env0, Playing 999) # trace_played) (handlePlaying 150 player0)))
     = Some 150 \<and>
   manifestRequestedAt (metrics (run ((env0, LoadStart 999) # trace_played)
     (onManifestLoading 105 player0))) = Some 105 \<and>
   manifestLoadedAt (metrics (run ((env0, LoadedMetadata 999 video0) # trace_played)
     (onManifestLoaded env0 120 None player0))) = Some 120"
proof -
  have ss: "sameSession ((env0, Play 999) # trace_played)"
    "sameSession ((env0, Playing 999) # trace_played)"
    "sameSession ((env0, LoadStart 999) # trace_played)"
    "sameSession ((env0, LoadedMetadata 999 video0) # trace_played)"
    "sameSession trace_played"
    "list_all (\<lambda>x. \<not> isManifestLoading (snd x)) ((env0, LoadStart 999) # trace_played)"
    "list_all (\<lambda>x. \<not> isManifestLoaded (snd x)) ((env0, LoadedMetadata 999 video0) # trace_played)"
    by (simp_all add: sameSession_def trace_played_def)
  have init: "playbackRequestedAt (metrics (handlePlay 140 player0)) = Some 140"
    "firstFrameAt (metrics (handlePlaying 150 player0)) = Some 150"
    by (simp_all add: handlePlay_def handlePlaying_def player0_def freshSession_def nullish_def)
  note t1 = timestamps_first_write
    [where evs = "(env0, Play 999) # trace_played" and p = "handlePlay 140 player0" and a = 140,
      THEN conjunct1]
  note t2 = timestamps_first_write
    [where evs = "(env0, Playing 999) # trace_played" and p = "handlePlaying 150 player0"
       and a = 150, THEN conjunct2, THEN conjunct1]
  note t3 = timestamps_first_write
    [where evs = "(env0, LoadStart 999) # trace_played" and p = "onManifestLoading 105 player0"
       and a = 105 and t = 105, THEN conjunct2, THEN conjunct2, THEN conjunct1]
  note t4 = timestamps_first_write
    [where evs = "(env0, LoadedMetadata 999 video0) # trace_played"
       and p = "onManifestLoaded env0 120 None player0"
       and a = 120, THEN conjunct2, THEN conjunct2, THEN conjunct2, THEN conjunct1]
  note t5 = timestamps_first_write
    [where t = 105 and p = player0, THEN conjunct2, THEN conjunct2, THEN conjunct2,
      THEN conjunct2, THEN conjunct1]
  note t6 = timestamps_first_write
    [where t = 120 and p = player0 and e = env0 and d = None, THEN conjunct2, THEN conjunct2,
      THEN conjunct2, THEN conjunct2, THEN conjunct2]
  show ?thesis using ss init t1 t2 t3 t4 t5 t6 by simp
qed

text \<open>
  Claim C2 as the specification words it fails at the runtime's signals: a
  manifest-loading signal at 125 replaces the time 110 that load-start stored, and the
  time 105 of an earlier manifest-loading signal; a manifest-loaded signal at 160
  replaces the time 130 that metadata-loaded stored.
\<close>

theorem hls_manifest_signals_overwrite:
  "manifestRequestedAt (metrics (run [(env0, LoadStart 110)] player0)) = Some 110 \<and>
   manifestRequestedAt (metrics (run [(env0, LoadStart 110), (env0, ManifestLoading 125)] player0))
     = Some 125 \<and>
   manifestRequestedAt
     (metrics (run [(env0, ManifestLoading 105), (env0, ManifestLoading 125)] player0))
     = Some 125 \<and>
   manifestLoadedAt (metrics (run [(env0, LoadedMetadata 130 video0)] player0)) = Some 130 \<and>
   manifestLoadedAt
     (metrics (run [(env0, LoadedMetadata 130 video0), (env0, ManifestLoaded 160 None)] player0))
     = Some 160"
  by (simp add: player0_def freshSession_def handleLoadStart_def onManifestLoading_def
      handleLoadedMetadata_def onManifestLoaded_def capture_frame nullish_def truthyStr_def Let_def)

subsection \<open>Stall signals\<close>

lemma waiting_starved:
  "\<not> paused v \<Longrightarrow> readyState v < 3 \<Longrightarrow>
   handleWaiting v p =
     p\<lparr>isBuffering := True,
       metrics := (metrics p)\<lparr>bufferingEvents := bufferingEvents (metrics p) + 1\<rparr>\<rparr>"
  by (simp add: handleWaiting_def Let_def)

lemma stalled_starved:
  "\<not> paused v \<Longrightarrow>
   handleStalled v p =
     p\<lparr>isBuffering := True,
       metrics := (metrics p)\<lparr>bufferingEvents := bufferingEvents (metrics p) + 1\<rparr>\<rparr>"
  by (simp add: handleStalled_def Let_def)

lemma stall_ignored:
  "paused v \<Longrightarrow> handleWaiting v p = p"
  "paused v \<Longrightarrow> handleStalled v p = p"
  "readyState v \<ge> 3 \<Longrightarrow> handleWaiting v p = p"
  by (simp_all add: handleWaiting_def handleStalled_def)

lemma step_buffering_events:
  "\<not> isSourceChange ev \<Longrightarrow>
   bufferingEvents (metrics p) + (if starvedStall ev then 1 else 0)
     \<le> bufferingEvents (metrics (step e ev p)) \<and>
   bufferingEvents (metrics (step e ev p))
     \<le> bufferingEvents (metrics p) + (if stallSignal ev then 1 else 0)"
  by (cases ev)
     (simp_all add: handler_defs send_stamps capture_frame Let_def split: option.split)

lemma run_buffering_events:
  "sameSession evs \<Longrightarrow>
   bufferingEvents (metrics p) + length (filter (\<lambda>x. starvedStall (snd x)) evs)
     \<le> bufferingEvents (metrics (run evs p)) \<and>
   bufferingEvents (metrics (run evs p))
     \<le> bufferingEvents (metrics p) + length (filter (\<lambda>x. stallSignal (snd x)) evs)"
proof (induction evs arbitrary: p)
  case Nil
  then show ?case by simp
next
  case (Cons x evs)
  obtain e ev where x: "x = (e, ev)" by (cases x)
  from Cons.prems x have nsc: "\<not> isSourceChange ev" and rest: "sameSession evs"
    by (simp_all add: sameSession_def)
  show ?case
    using Cons.IH [OF rest, of "step e ev p"] step_buffering_events [OF nsc, of p e] x
    by (simp split: if_splits)
qed

text \<open>
  Claim C3, as the code has it. The counter goes up by one on every "waiting" and on
  every "stalled" signal that arrives while the element is not paused and is short of
  data, whether or not the player is buffering already; a stall signal on a paused
  element, and a "waiting" signal at sufficient readiness, change nothing. Over a
  session the counter therefore grows by at least the number of such signals and by at
  most the number of stall signals: it counts signals, not entries into buffering.
\<close>

theorem buffering_events_per_signal:
  "(\<not> paused v \<and> readyState v < 3 \<longrightarrow>
      bufferingEvents (metrics (handleWaiting v p)) = bufferingEvents (metrics p) + 1 \<and>
      isBuffering (handleWaiting v p) \<and>
      bufferingEvents (metrics (handleStalled v p)) = bufferingEvents (metrics p) + 1 \<and>
      isBuffering (handleStalled v p)) \<and>
   (paused v \<longrightarrow> handleWaiting v p = p \<and> handleStalled v p = p) \<and>
   (readyState v \<ge> 3 \<longrightarrow> handleWaiting v p = p) \<and>
   (sameSession evs \<longrightarrow>
      bufferingEvents (metrics p) + length (filter (\<lambda>x. starvedStall (snd x)) evs)
        \<le> bufferingEvents (metrics (run evs p)) \<and>
      bufferingEvents (metrics (run evs p))
        \<le> bufferingEvents (metrics p) + length (filter (\<lambda>x. stallSignal (snd x)) evs))"
  using waiting_starved [of v p] stalled_starved [of v p] stall_ignored [of v p]
    run_buffering_events [of evs p]
  by simp

text \<open>
  The theorem during playback: a "waiting" and then a "stalled" signal on an element
  short of data count twice.
\<close>

theorem buffering_events_per_signal_witness:
  "\<not> paused video_starved \<and> readyState video_starved < 3 \<and>
   isBuffering (handleWaiting video_starved player_playing) \<and>
   bufferingEvents (metrics (handleWaiting video_starved player_playing)) = 1 \<and>
   bufferingEvents (metrics (handleStalled video_starved
      (handleWaiting video_starved player_playing))) = 2 \<and>
   handleStalled (video_starved\<lparr>paused := True\<rparr>) player_playing = player_playing \<and>
   handleWaiting video0 player_playing = player_playing \<and>
   sameSession trace_two_stalls \<and>
   bufferingEvents (metrics (run trace_two_stalls player_playing)) = 2"
proof -
  have v: "\<not> paused video_starved" "readyState video_starved < 3"
    "paused (video_starved\<lparr>paused := True\<rparr>)" "readyState video0 \<ge> 3"
    by (simp_all add: video_starved_def video0_def)
  have p: "bufferingEvents (metrics player_playing) = 0"
    by (simp add: player_playing_def player0_def freshSession_def handlePlay_def
        handlePlaying_def Let_def)
  have ss: "sameSession trace_two_stalls"
    "length (filter (\<lambda>x. starvedStall (snd x)) trace_two_stalls) = 2"
    "length (filter (\<lambda>x. stallSignal (snd x)) trace_two_stalls) = 2"
    by (simp_all add: sameSession_def trace_two_stalls_def v)
  note a = buffering_events_per_signal [where v = video_starved and p = player_playing
      and evs = trace_two_stalls]
  note b = buffering_events_per_signal [where v = video_starved
      and p = "handleWaiting video_starved player_playing", THEN conjunct1]
  note c = buffering_events_per_signal [where v = "video_starved\<lparr>paused := True\<rparr>"
      and p = player_playing, THEN conjunct2, THEN conjunct1]
  note d = buffering_events_per_signal [where v = video0
      and p = player_playing, THEN conjunct2, THEN conjunct2, THEN conjunct1]
  show ?thesis using v p ss a b c d by simp
qed

text \<open>
  Claim C3 as the specification words it fails: after one "waiting" signal the player is
  buffering and the counter is 1; a second "waiting" signal, with no "playing" signal in
  between, makes it 2.
\<close>

theorem buffering_events_double_count:
  "isBuffering (run [(env0, Waiting video_starved)] player_playing) \<and>
   bufferingEvents (metrics (run [(env0, Waiting video_starved)] player_playing)) = 1 \<and>
   list_all (\<lambda>x. \<not> isPlayingSignal (snd x))
     [(env0, Waiting video_starved), (env0, Waiting video_starved)] \<and>
   bufferingEvents (metrics (run [(env0, Waiting video_starved), (env0, Waiting video_starved)]
     player_playing)) = 2"
  by (simp add: player_playing_def player0_def freshSession_def handlePlay_def
      handlePlaying_def handleWaiting_def video_starved_def video0_def Let_def)

text \<open>
  Claim C4 at a "stalled" signal that arrives during playback with the element not
  paused and at \<^verbatim>\<open>readyState\<close> 4: the player enters buffering and the counter goes
  up, while the "waiting" handler leaves the same state alone.
\<close>

theorem stalled_ignores_readiness:
  "\<not> paused video0 \<and> readyState video0 \<ge> 3 \<and>
   \<not> isBuffering player_playing \<and>
   isBuffering (handleStalled video0 player_playing) \<and>
   bufferingEvents (metrics (handleStalled video0 player_playing))
     = bufferingEvents (metrics player_playing) + 1 \<and>
   handleWaiting video0 player_playing = player_playing"
  by (simp add: player_playing_def player0_def freshSession_def handlePlay_def
      handlePlaying_def handleWaiting_def handleStalled_def video0_def Let_def)


subsection \<open>Quality selection\<close>

lemma findIndex_range: "findIndex P xs = - 1 \<or> (0 \<le> findIndex P xs \<and> findIndex P xs < int (length xs))"
  by (induction xs) (auto simp add: Let_def)

lemma findIndex_none: "findIndex P xs = - 1 \<longleftrightarrow> (\<forall>x \<in> set xs. \<not> P x)"
proof (induction xs)
  case Nil
  then show ?case by simp
next
  case (Cons x xs)
  then show ?case using findIndex_range [of P xs] by (auto simp add: Let_def)
qed

lemma findIndex_first:
  "findIndex P xs \<noteq> - 1 \<Longrightarrow>
   P (xs ! nat (findIndex P xs)) \<and> (\<forall>j < nat (findIndex P xs). \<not> P (xs ! j))"
proof (induction xs)
  case Nil
  then show ?case by simp
next
  case (Cons x xs)
  show ?case
  proof (cases "P x")
    case True
    then show ?thesis by simp
  next
    case False
    with Cons.prems have ne: "findIndex P xs \<noteq> - 1" by (auto simp add: Let_def split: if_splits)
    then have nn: "0 \<le> findIndex P xs" using findIndex_range [of P xs] by auto
    have idx: "findIndex P (x # xs) = findIndex P xs + 1" using False ne by (simp add: Let_def)
    have n: "nat (findIndex P xs + 1) = Suc (nat (findIndex P xs))" using nn by simp
    from Cons.IH [OF ne] have ih: "P (xs ! nat (findIndex P xs))"
      "\<forall>j < nat (findIndex P xs). \<not> P (xs ! j)" by simp_all
    show ?thesis
    proof (intro conjI allI impI)
      show "P ((x # xs) ! nat (findIndex P (x # xs)))" using ih(1) idx n by simp
    next
      fix j assume "j < nat (findIndex P (x # xs))"
      then have "j < Suc (nat (findIndex P xs))" using idx n by simp
      then show "\<not> P ((x # xs) ! j)" using ih(2) False by (cases j) simp_all
    qed
  qed
qed

lemma quality_unbound: "hlsRef p = None \<Longrightarrow> handleQualityChange q v p = p"
  by (simp add: handleQualityChange_def)

lemma quality_no_match:
  "hlsRef p = Some h \<Longrightarrow> q \<noteq> ''auto'' \<Longrightarrow> levelIndex q h = - 1 \<Longrightarrow>
   handleQualityChange q v p = p\<lparr>quality := q\<rparr>"
  by (simp add: handleQualityChange_def Let_def)

lemma quality_upgrade:
  "hlsRef p = Some h \<Longrightarrow> q \<noteq> ''auto'' \<Longrightarrow> levelIndex q h \<noteq> - 1 \<Longrightarrow> isUpgrade q h \<Longrightarrow>
   handleQualityChange q (Some el) p =
     p\<lparr>quality := q, autoQualityLabel := None,
       hlsRef := Some (h\<lparr>currentLevel := levelIndex q h, nextLevel := levelIndex q h,
                         loadLevel := levelIndex q h,
                         bufferAppended := bufferAppended h @
                           [\<lparr>currentPlaybackTime = currentTime el,
                             resumePlayback = (\<not> paused el)\<rparr>]\<rparr>)\<rparr>"
  by (simp add: handleQualityChange_def Let_def)


lemma fire_last:
  "fireBufferAppended (h\<lparr>bufferAppended := bufferAppended h @ [r]\<rparr>) el =
     (h\<lparr>bufferAppended := []\<rparr>, handleBufferAppended r (snd (fireBufferAppended h el)))"
  by (simp add: fireBufferAppended_def)

lemma level_index_found:
  assumes "levelIndex q h \<noteq> - 1"
  shows "0 \<le> levelIndex q h \<and> nat (levelIndex q h) < length (levels h) \<and>
         Some (height (levels h ! nat (levelIndex q h))) = targetHeight q \<and>
         (\<forall>j < nat (levelIndex q h). Some (height (levels h ! j)) \<noteq> targetHeight q)"
  using assms findIndex_range [of "\<lambda>l. Some (height l) = targetHeight q" "levels h"]
    findIndex_first [of "\<lambda>l. Some (height l) = targetHeight q" "levels h"]
  by (auto simp add: levelIndex_def)

lemma sample_lookup:
  "targetHeight ''1080p'' = Some 1080" "targetHeight ''480p'' = Some 480"
  "targetHeight ''360p'' = Some 360" "targetHeight ''720p'' = Some 720"
  by (simp_all add: targetHeight_def parseInt_def isWhiteSpace_def startsWith_def isDigitOf_def
      digitVal_def digitsValue_def Let_def)

lemma sample_index:
  "levelIndex ''1080p'' hls0 = 0" "levelIndex ''480p'' hls0 = 2" "levelIndex ''360p'' hls0 = - 1"
  "levelIndex ''720p'' hls0 = 1"
  by (simp_all add: levelIndex_def sample_lookup hls0_def Let_def)

lemma sample_height: "currentHeight hls0 = 480"
  "currentHeight (hls0\<lparr>currentLevel := 0\<rparr>) = 1080"
  by (simp_all add: currentHeight_def currentManualIndex_def hls0_def Let_def)


lemma sample_players:
  "hlsRef player_hls = Some hls0" "hlsRef player0 = None" "quality player_hls = ''auto''"
  "paused video_paused" "\<not> paused video0" "currentTime video_paused = 42.5"
  "playCalls video_paused = 0"
  by (simp_all add: player_hls_def player0_def video_paused_def video0_def)

text \<open>
  Claim C6, as the code has it. With a runtime bound, a label that matches a level, and
  a current level of known height below the label's: when the element is paused, the
  runtime's current, next and load level are set to the index of the first level of
  that height, and a one-shot buffer-appended listener is registered with the playback
  time captured at the call. At the next buffer-appended signal it writes that time
  back into the element, wherever the element is by then, issues no play command, and
  is gone afterwards.
\<close>

theorem upgrade_while_paused:
  assumes "hlsRef p = Some h" and "q \<noteq> ''auto''" and "levelIndex q h \<noteq> - 1"
    and "targetHeight q = Some th" and "0 < currentHeight h" and "currentHeight h < th"
    and "paused el"
  shows "\<exists>h'. hlsRef (handleQualityChange q (Some el) p) = Some h' \<and>
           currentLevel h' = levelIndex q h \<and> nextLevel h' = levelIndex q h \<and>
           loadLevel h' = levelIndex q h \<and>
           height (levels h' ! nat (levelIndex q h)) = th \<and>
           bufferAppended h' = bufferAppended h @
             [\<lparr>currentPlaybackTime = currentTime el, resumePlayback = False\<rparr>] \<and>
           currentTime (snd (fireBufferAppended h' later)) = currentTime el \<and>
           playCalls (snd (fireBufferAppended h' later))
             = playCalls (snd (fireBufferAppended h later)) \<and>
           bufferAppended (fst (fireBufferAppended h' later)) = []"
proof -
  let ?i = "levelIndex q h"
  let ?r = "\<lparr>currentPlaybackTime = currentTime el, resumePlayback = False\<rparr>"
  let ?h1 = "h\<lparr>currentLevel := ?i, nextLevel := ?i, loadLevel := ?i\<rparr>"
  let ?h' = "?h1\<lparr>bufferAppended := bufferAppended ?h1 @ [?r]\<rparr>"
  have up: "isUpgrade q h" using assms(4,5,6) by (simp add: isUpgrade_def)
  have res: "hlsRef (handleQualityChange q (Some el) p) = Some ?h'"
    using quality_upgrade [OF assms(1,2,3) up, of el] assms(7) by simp
  have ht: "height (levels h ! nat ?i) = th"
    using level_index_found [OF assms(3)] assms(4) by simp
  have fire: "fireBufferAppended ?h' later =
      (?h1\<lparr>bufferAppended := []\<rparr>, handleBufferAppended ?r (snd (fireBufferAppended ?h1 later)))"
    by (rule fire_last)
  have same: "snd (fireBufferAppended ?h1 later) = snd (fireBufferAppended h later)"
    by (simp add: fireBufferAppended_def)
  show ?thesis
    using res ht fire same
    by (intro exI [of _ ?h']) (simp add: handleBufferAppended_def Let_def)
qed

text \<open>
  The theorem at a paused element at 42.5 s on the 480p level, asked for 1080p, and
  moved to 10 s before the signal arrives.
\<close>

theorem upgrade_while_paused_witness:
  "hlsRef player_hls = Some hls0 \<and> levelIndex ''1080p'' hls0 = 0 \<and>
   targetHeight ''1080p'' = Some 1080 \<and> currentHeight hls0 = 480 \<and> paused video_paused \<and>
   (\<exists>h'. hlsRef (handleQualityChange ''1080p'' (Some video_paused) player_hls) = Some h' \<and>
      currentLevel h' = 0 \<and> nextLevel h' = 0 \<and> loadLevel h' = 0 \<and>
      bufferAppended h' = [\<lparr>currentPlaybackTime = 42.5, resumePlayback = False\<rparr>] \<and>
      currentTime (snd (fireBufferAppended h' (video_paused\<lparr>currentTime := 10\<rparr>))) = 42.5 \<and>
      playCalls (snd (fireBufferAppended h' (video_paused\<lparr>currentTime := 10\<rparr>))) = 0)"
proof -
  have h0: "bufferAppended hls0 = []"
    "playCalls (snd (fireBufferAppended hls0 (video_paused\<lparr>currentTime := 10\<rparr>))) = 0"
    by (simp_all add: hls0_def fireBufferAppended_def video_paused_def video0_def)
  have "(''1080p''::string) \<noteq> ''auto''" "levelIndex ''1080p'' hls0 \<noteq> - 1"
    "0 < currentHeight hls0" "currentHeight hls0 < 1080"
    by (simp_all add: sample_index sample_height)
  from upgrade_while_paused [OF sample_players(1) this(1,2) sample_lookup(1) this(3,4)
      sample_players(4), of "video_paused\<lparr>currentTime := 10\<rparr>"]
  show ?thesis
    using sample_players sample_index sample_lookup sample_height h0 by auto
qed

text \<open>
  Claim C6 as the specification words it fails in its second half: after the upgrade
  of the paused element the listener is registered, and the buffer-appended signal
  moves the element from 10 s back to the captured 42.5 s.
\<close>

theorem upgrade_while_paused_restores_position:
  "paused video_paused \<and> currentHeight hls0 = 480 \<and> targetHeight ''1080p'' = Some 1080 \<and>
   hlsRef (handleQualityChange ''1080p'' (Some video_paused) player_hls) =
     Some (hls0\<lparr>currentLevel := 0, nextLevel := 0, loadLevel := 0,
                bufferAppended := [\<lparr>currentPlaybackTime = 42.5, resumePlayback = False\<rparr>]\<rparr>) \<and>
   currentTime (video_paused\<lparr>currentTime := 10\<rparr>) = 10 \<and>
   currentTime (snd (fireBufferAppended
       (hls0\<lparr>currentLevel := 0, nextLevel := 0, loadLevel := 0,
              bufferAppended := [\<lparr>currentPlaybackTime = 42.5, resumePlayback = False\<rparr>]\<rparr>)
       (video_paused\<lparr>currentTime := 10\<rparr>))) = 42.5"
proof -
  have up: "isUpgrade ''1080p'' hls0"
    by (simp add: isUpgrade_def sample_lookup sample_height)
  have "hlsRef (handleQualityChange ''1080p'' (Some video_paused) player_hls) =
     Some (hls0\<lparr>currentLevel := 0, nextLevel := 0, loadLevel := 0,
                bufferAppended := [\<lparr>currentPlaybackTime = 42.5, resumePlayback = False\<rparr>]\<rparr>)"
    by (simp add: handleQualityChange_def player_hls_def player0_def sample_index up Let_def
        video_paused_def video0_def)
       (simp add: hls0_def)
  then show ?thesis
    by (simp add: sample_players sample_height sample_lookup fireBufferAppended_def
        handleBufferAppended_def Let_def)
qed






text \<open>
  Claim C9. With no runtime bound, \<^verbatim>\<open>handleQualityChange\<close> returns the state as it
  is, for every label and whether or not the element exists.
\<close>

theorem quality_change_without_runtime:
  "hlsRef p = None \<longrightarrow> handleQualityChange q v p = p"
  by (simp add: quality_unbound)

text \<open>The theorem at a player without a runtime, for "auto" and for a height label.\<close>

theorem quality_change_without_runtime_witness:
  "hlsRef player0 = None \<and>
   handleQualityChange ''auto'' (Some video0) player0 = player0 \<and>
   handleQualityChange ''720p'' (Some video0) player0 = player0 \<and>
   handleQualityChange ''720p'' None player0 = player0"
  using quality_change_without_runtime [of player0 "''auto''" "Some video0"]
    quality_change_without_runtime [of player0 "''720p''" "Some video0"]
    quality_change_without_runtime [of player0 "''720p''" None]
    sample_players(2)
  by simp

text \<open>
  Claim C8 at the label 360p on a runtime whose levels are 1080p, 720p and 480p: the
  runtime, the error and the automatic label are as before, and the displayed quality
  selection has changed from "auto" to "360p".
\<close>

theorem unavailable_quality_changes_selection:
  "hlsRef player_hls = Some hls0 \<and> levelIndex ''360p'' hls0 = - 1 \<and>
   quality player_hls = ''auto'' \<and>
   quality (handleQualityChange ''360p'' (Some video0) player_hls) = ''360p'' \<and>
   handleQualityChange ''360p'' (Some video0) player_hls \<noteq> player_hls \<and>
   hlsRef (handleQualityChange ''360p'' (Some video0) player_hls) = hlsRef player_hls \<and>
   error (handleQualityChange ''360p'' (Some video0) player_hls) = error player_hls \<and>
   autoQualityLabel (handleQualityChange ''360p'' (Some video0) player_hls)
     = autoQualityLabel player_hls"
proof -
  have "handleQualityChange ''360p'' (Some video0) player_hls = player_hls\<lparr>quality := ''360p''\<rparr>"
    using quality_no_match [OF sample_players(1) _ sample_index(3)] by simp
  moreover have "player_hls\<lparr>quality := ''360p''\<rparr> \<noteq> player_hls"
  proof
    assume "player_hls\<lparr>quality := ''360p''\<rparr> = player_hls"
    then have "quality (player_hls\<lparr>quality := ''360p''\<rparr>) = quality player_hls" by simp
    then show False by (simp add: sample_players)
  qed
  ultimately show ?thesis by (simp add: sample_players sample_index)
qed


end
